theory Spec2Isabelle
  imports Main "HOL-Library.AList"
begin

section \<open>Python values used by chesslib/board.py\<close>

text \<open>
  The exceptions that the modelled code can raise. The first seven are the
  \<^verbatim>\<open>ChessError\<close> subclasses declared in board.py; \<open>KeyError\<close>, \<open>AttributeError\<close>,
  \<open>IndexError\<close> and \<open>ValueError\<close> are the built-in exceptions of Python that the code
  lets escape. \<open>MalformedState\<close> is the failure of the piece factory, which is not
  part of the sources at hand (see \<open>pieces_piece\<close>).
\<close>

datatype error =
    InvalidCoord | InvalidColor | InvalidMove | Check | CheckMate | Draw | NotYourTurn
  | KeyError | AttributeError | IndexError | ValueError | MalformedState

text \<open>Running a fallible function over a list, as Python's \<^verbatim>\<open>map\<close> does: the first
  exception ends the run.\<close>

fun emap :: "('a \<Rightarrow> error + 'b) \<Rightarrow> 'a list \<Rightarrow> error + 'b list" where
  "emap f [] = Inr []"
| "emap f (x # xs) =
     (case f x of
        Inl e \<Rightarrow> Inl e
      | Inr y \<Rightarrow> (case emap f xs of Inl e \<Rightarrow> Inl e | Inr ys \<Rightarrow> Inr (y # ys)))"

subsection \<open>Strings\<close>

definition lower_letters :: string where
  "lower_letters = ''abcdefghijklmnopqrstuvwxyz''"

definition upper_letters :: string where
  "upper_letters = ''ABCDEFGHIJKLMNOPQRSTUVWXYZ''"

definition upper_char :: "char \<Rightarrow> char" where
  "upper_char c = (case map_of (zip lower_letters upper_letters) c of Some u \<Rightarrow> u | None \<Rightarrow> c)"

definition lower_char :: "char \<Rightarrow> char" where
  "lower_char c = (case map_of (zip upper_letters lower_letters) c of Some u \<Rightarrow> u | None \<Rightarrow> c)"

text \<open>\<^verbatim>\<open>str.upper()\<close> and \<^verbatim>\<open>str.lower()\<close> of a Python 2 byte string.\<close>

definition py_upper :: "string \<Rightarrow> string" where
  "py_upper s = map upper_char s"

definition py_lower :: "string \<Rightarrow> string" where
  "py_lower s = map lower_char s"

definition digit_chars :: string where
  "digit_chars = ''0123456789''"

definition digit_char :: "nat \<Rightarrow> char" where
  "digit_char n = digit_chars ! (n mod 10)"

definition digit_val :: "char \<Rightarrow> nat" where
  "digit_val c =
     (case map_of (zip digit_chars [0, 1, 2, 3, 4, 5, 6, 7, 8, 9]) c of Some n \<Rightarrow> n | None \<Rightarrow> 0)"

definition is_digit :: "char \<Rightarrow> bool" where
  "is_digit c = (c \<in> set digit_chars)"

text \<open>\<^verbatim>\<open>str(n)\<close> of an integer.\<close>

fun str_nat :: "nat \<Rightarrow> string" where
  "str_nat n = (if n < 10 then [digit_char n] else str_nat (n div 10) @ [digit_char (n mod 10)])"

declare str_nat.simps [simp del]

definition str_int :: "int \<Rightarrow> string" where
  "str_int i = (if i < 0 then CHR ''-'' # str_nat (nat (- i)) else str_nat (nat i))"

text \<open>\<^verbatim>\<open>int(s)\<close> of a string: surrounding whitespace is stripped, an optional sign is
  followed by decimal digits; anything else raises \<open>ValueError\<close>.\<close>

definition py_isspace :: "char \<Rightarrow> bool" where
  "py_isspace c = (c \<in> set [CHR '' '', CHR 0x09, CHR 0x0A, CHR 0x0B, CHR 0x0C, CHR 0x0D])"

definition py_strip :: "string \<Rightarrow> string" where
  "py_strip s = rev (dropWhile py_isspace (rev (dropWhile py_isspace s)))"

definition nat_of_digits :: "string \<Rightarrow> nat" where
  "nat_of_digits ds = foldl (\<lambda>a c. 10 * a + digit_val c) 0 ds"

definition py_int :: "string \<Rightarrow> error + int" where
  "py_int s =
     (let t = py_strip s;
          neg = (t \<noteq> [] \<and> hd t = CHR ''-'');
          ds = (if t \<noteq> [] \<and> (hd t = CHR ''-'' \<or> hd t = CHR ''+'') then tl t else t)
      in if ds = [] \<or> \<not> list_all is_digit ds then Inl ValueError
         else Inr (if neg then - int (nat_of_digits ds) else int (nat_of_digits ds)))"

text \<open>\<^verbatim>\<open>s.split(c)\<close> with an explicit separator and \<^verbatim>\<open>c.join(parts)\<close>.\<close>

fun split_on :: "char \<Rightarrow> string \<Rightarrow> string list" where
  "split_on c [] = [[]]"
| "split_on c (x # xs) =
     (if x = c then [] # split_on c xs
      else (case split_on c xs of w # ws \<Rightarrow> (x # w) # ws | [] \<Rightarrow> [[x]]))"

fun join_with :: "string \<Rightarrow> string list \<Rightarrow> string" where
  "join_with sep [] = []"
| "join_with sep [w] = w"
| "join_with sep (w # v # ws) = w @ sep @ join_with sep (v # ws)"

text \<open>\<^verbatim>\<open>RANK_REGEX = re.compile(r"^[A-Z][1-8]$")\<close>, used through \<^verbatim>\<open>re.match\<close>: a capital
  letter and a digit from 1 to 8; \<^verbatim>\<open>$\<close> also matches before one final newline.\<close>

fun RANK_REGEX_match :: "string \<Rightarrow> bool" where
  "RANK_REGEX_match [l, d] = (l \<in> set upper_letters \<and> d \<in> set ''12345678'')"
| "RANK_REGEX_match [l, d, n] = (l \<in> set upper_letters \<and> d \<in> set ''12345678'' \<and> n = CHR 0x0A)"
| "RANK_REGEX_match _ = False"

section \<open>Pieces\<close>

text \<open>
  The module \<^verbatim>\<open>pieces\<close> is imported by board.py but is not among the sources. board.py
  reads three things of a piece: its \<^verbatim>\<open>color\<close> (a string), its \<^verbatim>\<open>abbreviation\<close> (a
  string, written verbatim into the serialized placement by \<^verbatim>\<open>export\<close>) and its class
  (\<^verbatim>\<open>isinstance(piece, pieces.King)\<close>).
\<close>

datatype piece_kind = Pawn | Knight | Bishop | Rook | Queen | King

record piece =
  kind :: piece_kind
  color :: string
  abbreviation_of :: string

text \<open>
  Modelled from the spec: the factory \<^verbatim>\<open>pieces.piece(letter)\<close> is missing from the
  sources. The spec gives a piece a kind from pawn, knight, bishop, rook, queen, king
  with the one-character abbreviation P/N/B/R/Q/K, uppercase for white and lowercase
  for black in serialized form, and lets decoding fail on an unrecognized piece letter.
  \<^verbatim>\<open>export\<close> emits \<^verbatim>\<open>piece.abbreviation\<close> itself as the serialized form, so the
  abbreviation of a piece is the letter it was made from.
\<close>

definition pieces_piece :: "char \<Rightarrow> error + piece" where
  "pieces_piece letter =
     (case map_of [(CHR ''P'', Pawn), (CHR ''N'', Knight), (CHR ''B'', Bishop),
                   (CHR ''R'', Rook), (CHR ''Q'', Queen), (CHR ''K'', King)] (upper_char letter) of
        None \<Rightarrow> Inl MalformedState
      | Some k \<Rightarrow>
          Inr \<lparr>kind = k,
               color = (if letter \<in> set upper_letters then ''white'' else ''black''),
               abbreviation_of = [letter]\<rparr>)"

definition is_king :: "piece option \<Rightarrow> bool" where
  "is_king p = (case p of None \<Rightarrow> False | Some q \<Rightarrow> kind q = King)"

section \<open>The board\<close>

text \<open>
  \<^verbatim>\<open>Board\<close> is a \<^verbatim>\<open>dict\<close> subclass. Its keys are square names; \<^verbatim>\<open>load\<close> can also store
  under the key \<^verbatim>\<open>None\<close> (the value of \<^verbatim>\<open>letter_notation\<close> out of bounds), so a key is
  an optional string. \<^verbatim>\<open>_do_move\<close> stores whatever \<^verbatim>\<open>self[p1]\<close> returned, so a stored
  value is an optional piece. The dictionary is an association list with distinct keys;
  its order stands for the iteration order of \<^verbatim>\<open>keys()\<close>, which Python 2 leaves
  unspecified. The remaining fields are the attributes that \<^verbatim>\<open>load\<close> and \<^verbatim>\<open>move\<close> assign
  on the instance. \<^verbatim>\<open>history\<close> is never assigned on an instance: it is the one list of
  the class and is passed separately.
\<close>

type_synonym key = "string option"

record board =
  squares :: "(key \<times> piece option) list"
  player_turn :: string
  castling :: string
  en_passant :: string
  halfmove_clock :: int
  fullmove_number :: int
  in_check :: "string \<times> bool"
  in_mate :: "string \<times> bool"

text \<open>
  The piece catalog: \<^verbatim>\<open>piece.possible_moves(coord)\<close>, a method of the missing module
  that reads the board the piece was placed on. It is a parameter of everything below.
\<close>

type_synonym catalog = "piece \<Rightarrow> key \<Rightarrow> board \<Rightarrow> string list"

definition FEN_STARTING :: string where
  "FEN_STARTING = ''rnbqkbnr/pppppppp/8/8/8/8/PPPPPPPP/RNBQKBNR w KQkq - 0 1''"

definition axis_y :: string where
  "axis_y = ''ABCDEFGH''"

definition axis_x :: "int list" where
  "axis_x = [1, 2, 3, 4, 5, 6, 7, 8]"

text \<open>\<^verbatim>\<open>dict.__getitem__\<close> with the \<^verbatim>\<open>KeyError\<close> caught and turned into \<^verbatim>\<open>None\<close>.\<close>

definition dict_get :: "(key \<times> piece option) list \<Rightarrow> key \<Rightarrow> piece option" where
  "dict_get d k = (case map_of d k of None \<Rightarrow> None | Some v \<Rightarrow> v)"

text \<open>\<^verbatim>\<open>Board.__getitem__\<close> for a string or \<^verbatim>\<open>None\<close> (indexing by a tuple is used by no
  function modelled here).\<close>

fun getitem :: "board \<Rightarrow> key \<Rightarrow> error + piece option" where
  "getitem b (Some coord) =
     (let coord' = py_upper coord
      in if \<not> RANK_REGEX_match (py_upper coord') then Inl KeyError
         else Inr (dict_get (squares b) (Some coord')))"
| "getitem b None = Inr (dict_get (squares b) None)"

text \<open>
  A piece object together with its identity. No piece object is stored under two keys
  (\<^verbatim>\<open>load\<close> makes one object per square, \<^verbatim>\<open>_do_move\<close> relocates it and \<^verbatim>\<open>deepcopy\<close> keeps
  the structure), so the key an object is stored under identifies it.
\<close>

type_synonym piece_ref = "key \<times> piece"

definition stored_key :: "key \<Rightarrow> key" where
  "stored_key k = (case k of None \<Rightarrow> None | Some s \<Rightarrow> Some (py_upper s))"

definition getitem_ref :: "board \<Rightarrow> key \<Rightarrow> error + piece_ref option" where
  "getitem_ref b k =
     (case getitem b k of
        Inl e \<Rightarrow> Inl e
      | Inr None \<Rightarrow> Inr None
      | Inr (Some p) \<Rightarrow> Inr (Some (stored_key k, p)))"

definition get_enemy :: "string \<Rightarrow> string" where
  "get_enemy c = (if c = ''white'' then ''black'' else ''white'')"

definition valid_color :: "string \<Rightarrow> bool" where
  "valid_color c = (c = ''black'' \<or> c = ''white'')"

text \<open>\<^verbatim>\<open>_do_move\<close>: \<^verbatim>\<open>piece = self[p1]; del self[p1]; self[p2] = piece\<close>. The deletion
  and the store use the keys as given.\<close>

definition do_move :: "board \<Rightarrow> key \<Rightarrow> key \<Rightarrow> error + board" where
  "do_move b p1 p2 =
     (case getitem b p1 of
        Inl e \<Rightarrow> Inl e
      | Inr pc \<Rightarrow>
          if p1 \<notin> fst ` set (squares b) then Inl KeyError
          else Inr (b\<lparr>squares := AList.update p2 pc (AList.delete p1 (squares b))\<rparr>))"

text \<open>\<^verbatim>\<open>all_possible_moves\<close>: the loop over \<^verbatim>\<open>self.keys()\<close>, then the function.\<close>

fun all_possible_moves_loop ::
  "catalog \<Rightarrow> board \<Rightarrow> string \<Rightarrow> key list \<Rightarrow> string list \<Rightarrow> error + string list" where
  "all_possible_moves_loop pm b c [] result = Inr result"
| "all_possible_moves_loop pm b c (coord # rest) result =
     (case getitem b coord of
        Inl e \<Rightarrow> Inl e
      | Inr None \<Rightarrow> all_possible_moves_loop pm b c rest result
      | Inr (Some p) \<Rightarrow>
          if color p = c
          then (let moves = pm p coord b
                in all_possible_moves_loop pm b c rest
                     (if moves \<noteq> [] then result @ moves else result))
          else all_possible_moves_loop pm b c rest result)"

definition all_possible_moves :: "catalog \<Rightarrow> board \<Rightarrow> string \<Rightarrow> error + string list" where
  "all_possible_moves pm b c =
     (if \<not> valid_color c then Inl InvalidColor
      else all_possible_moves_loop pm b c (map fst (squares b)) [])"

text \<open>\<^verbatim>\<open>get_king_position\<close>: the first key holding a king of the colour; the loop
  falls off its end and the function returns \<^verbatim>\<open>None\<close> when there is none.\<close>

fun get_king_position_loop :: "board \<Rightarrow> string \<Rightarrow> key list \<Rightarrow> error + key" where
  "get_king_position_loop b c [] = Inr None"
| "get_king_position_loop b c (pos # rest) =
     (case getitem b pos of
        Inl e \<Rightarrow> Inl e
      | Inr occ \<Rightarrow>
          if is_king occ \<and> map_option color occ = Some c then Inr pos
          else get_king_position_loop b c rest)"

definition get_king_position :: "board \<Rightarrow> string \<Rightarrow> error + key" where
  "get_king_position b c = get_king_position_loop b c (map fst (squares b))"

definition get_king :: "board \<Rightarrow> string \<Rightarrow> error + piece_ref option" where
  "get_king b c =
     (if \<not> valid_color c then Inl InvalidColor
      else (case get_king_position b c of Inl e \<Rightarrow> Inl e | Inr pos \<Rightarrow> getitem_ref b pos))"

text \<open>\<^verbatim>\<open>is_in_check\<close>:
  \<^verbatim>\<open>king in map(self.__getitem__, self.all_possible_moves(enemy))\<close>.\<close>

definition is_in_check :: "catalog \<Rightarrow> board \<Rightarrow> string \<Rightarrow> error + bool" where
  "is_in_check pm b c =
     (if \<not> valid_color c then Inl InvalidColor
      else (case get_king b c of
              Inl e \<Rightarrow> Inl e
            | Inr king \<Rightarrow>
                (case all_possible_moves pm b (get_enemy c) of
                   Inl e \<Rightarrow> Inl e
                 | Inr ms \<Rightarrow>
                     (case emap (\<lambda>m. getitem_ref b (Some m)) ms of
                        Inl e \<Rightarrow> Inl e
                      | Inr occ \<Rightarrow> Inr (king \<in> set occ)))))"

text \<open>\<^verbatim>\<open>is_in_check_after_move\<close>: the move is made on a deep copy, and the colour is
  read from the board itself afterwards.\<close>

definition is_in_check_after_move :: "catalog \<Rightarrow> board \<Rightarrow> key \<Rightarrow> key \<Rightarrow> error + bool" where
  "is_in_check_after_move pm b p1 p2 =
     (case do_move b p1 p2 of
        Inl e \<Rightarrow> Inl e
      | Inr tmp \<Rightarrow>
          (case getitem b p1 of
             Inl e \<Rightarrow> Inl e
           | Inr None \<Rightarrow> Inl AttributeError
           | Inr (Some p) \<Rightarrow> is_in_check pm tmp (color p)))"

text \<open>
  \<^verbatim>\<open>all_legal_piece_moves\<close>: \<^verbatim>\<open>pool.map(add_move, possible_piece_moves)\<close>, where
  \<^verbatim>\<open>add_move\<close> returns the move when the simulation reports no check and returns
  nothing, that is \<^verbatim>\<open>None\<close>, otherwise. The pool's \<^verbatim>\<open>map\<close> keeps one result per candidate,
  in the candidates' order.
\<close>

definition add_move :: "catalog \<Rightarrow> board \<Rightarrow> key \<Rightarrow> string \<Rightarrow> error + key" where
  "add_move pm b origin m =
     (case is_in_check_after_move pm b origin (Some m) of
        Inl e \<Rightarrow> Inl e
      | Inr chk \<Rightarrow> Inr (if chk = False then Some m else None))"

definition all_legal_piece_moves :: "catalog \<Rightarrow> board \<Rightarrow> key \<Rightarrow> error + key list" where
  "all_legal_piece_moves pm b origin =
     (case getitem b origin of
        Inl e \<Rightarrow> Inl e
      | Inr None \<Rightarrow> Inl AttributeError
      | Inr (Some p) \<Rightarrow> emap (add_move pm b origin) (pm p origin b))"

text \<open>\<^verbatim>\<open>_finish_move\<close>: turn, counters and the move text appended to the history list
  of the class.\<close>

definition finish_move ::
  "board \<times> string list \<Rightarrow> piece \<Rightarrow> piece option \<Rightarrow> string \<Rightarrow> board \<times> string list" where
  "finish_move st pc dest p2 =
     (let b = fst st;
          enemy = get_enemy (color pc);
          b1 = (if color pc = ''black'' then b\<lparr>fullmove_number := fullmove_number b + 1\<rparr> else b);
          b2 = b1\<lparr>halfmove_clock := halfmove_clock b1 + 1\<rparr>;
          b3 = b2\<lparr>player_turn := enemy\<rparr>;
          abbr = abbreviation_of pc;
          b4 = (if abbr = ''P'' then b3\<lparr>halfmove_clock := 0\<rparr> else b3);
          abbr' = (if abbr = ''P'' then [] else abbr);
          b5 = (if dest = None then b4 else b4\<lparr>halfmove_clock := 0\<rparr>);
          movetext = (if dest = None then abbr' @ py_lower p2 else abbr' @ ''x'' @ py_lower p2)
      in (b5, snd st @ [movetext]))"

text \<open>
  \<^verbatim>\<open>move\<close>. The result is the state the call leaves behind (the board and the history
  list of the class) and the exception it raised, if any.
\<close>

definition move ::
  "catalog \<Rightarrow> board \<times> string list \<Rightarrow> string \<Rightarrow> string \<Rightarrow> (board \<times> string list) \<times> error option" where
  "move pm st p1a p2a =
     (let b = fst st; p1 = py_upper p1a; p2 = py_upper p2a in
      case getitem b (Some p1) of
        Inl e \<Rightarrow> (st, Some e)
      | Inr piece \<Rightarrow>
      (case getitem b (Some p2) of
        Inl e \<Rightarrow> (st, Some e)
      | Inr dest \<Rightarrow>
      (case piece of
        None \<Rightarrow> (st, Some AttributeError)
      | Some pc \<Rightarrow>
          if player_turn b \<noteq> color pc then (st, Some NotYourTurn)
          else
            (let enemy = get_enemy (color pc) in
             case all_legal_piece_moves pm b (Some p1) of
               Inl e \<Rightarrow> (st, Some e)
             | Inr legal_moves \<Rightarrow>
                 if Some p2 \<notin> set legal_moves then (st, Some InvalidMove)
                 else
                   (case do_move b (Some p1) (Some p2) of
                      Inl e \<Rightarrow> (st, Some e)
                    | Inr b1 \<Rightarrow>
                        (let st2 = finish_move (b1, snd st) pc dest p2 in
                         case is_in_check pm (fst st2) enemy of
                           Inl e \<Rightarrow> (st2, Some e)
                         | Inr chk \<Rightarrow>
                             ((fst st2\<lparr>in_check := (if chk then (enemy, True) else ([], False))\<rparr>,
                               snd st2), None)))))))"

text \<open>
  \<^verbatim>\<open>all_legal_side_moves\<close>. The closure \<^verbatim>\<open>add_move\<close> of that function, for the value
  \<^verbatim>\<open>coord\<close> it reads from the enclosing scope, would update the dictionary
  \<^verbatim>\<open>result\<close> as follows.
\<close>

type_synonym side_moves = "(key \<times> key list) list"

definition add_move_side ::
  "catalog \<Rightarrow> board \<Rightarrow> string \<Rightarrow> key \<Rightarrow> side_moves \<Rightarrow> error + side_moves" where
  "add_move_side pm b c coord result =
     (case getitem b coord of
        Inl e \<Rightarrow> Inl e
      | Inr None \<Rightarrow> Inr result
      | Inr (Some p) \<Rightarrow>
          if color p = c
          then (case all_legal_piece_moves pm b coord of
                  Inl e \<Rightarrow> Inl e
                | Inr legal_moves \<Rightarrow>
                    Inr (if legal_moves \<noteq> [] then AList.update coord legal_moves result
                         else result))
          else Inr result)"

text \<open>
  The function itself never calls the closure: it hands it to
  \<^verbatim>\<open>multiprocessing.Pool.apply_async\<close>, once per key, drops the handles that come back
  and returns \<^verbatim>\<open>result\<close> at once. A job given to such a pool runs in a worker process, on
  that process's own copy of \<^verbatim>\<open>result\<close>; the dictionary of the calling process is
  the one created by \<^verbatim>\<open>result = {}\<close> and nothing in the calling process writes to it.
  So the value returned does not depend on the workers or on their timing.
\<close>

definition all_legal_side_moves :: "catalog \<Rightarrow> board \<Rightarrow> string \<Rightarrow> error + side_moves" where
  "all_legal_side_moves pm b c = (if \<not> valid_color c then Inl InvalidColor else Inr [])"

text \<open>
  \<^verbatim>\<open>evaluate_board\<close>. The result is the board it leaves behind (it assigns
  \<^verbatim>\<open>in_mate\<close>) and what it returns: a string, or \<^verbatim>\<open>None\<close> where the function ends
  without a \<^verbatim>\<open>return\<close>. \<open>mate_decision\<close> is the part after the call of
  \<^verbatim>\<open>all_legal_side_moves\<close>.
\<close>

definition mate_decision :: "board \<Rightarrow> string \<Rightarrow> side_moves \<Rightarrow> board \<times> string option" where
  "mate_decision b side_in_check side_legal_moves =
     (if side_legal_moves = [] then (b\<lparr>in_mate := ([], False)\<rparr>, Some [])
      else if snd (in_mate b) then (b, Some (side_in_check @ '' is in checkmate!''))
      else (b, None))"

definition evaluate_board :: "catalog \<Rightarrow> board \<Rightarrow> board \<times> (error + string option)" where
  "evaluate_board pm b =
     (if snd (in_check b)
      then (let side_in_check = fst (in_check b);
                b1 = b\<lparr>in_mate := (side_in_check, True)\<rparr>
            in case all_legal_side_moves pm b1 side_in_check of
                 Inl e \<Rightarrow> (b1, Inl e)
               | Inr side_legal_moves \<Rightarrow>
                   (fst (mate_decision b1 side_in_check side_legal_moves),
                    Inr (snd (mate_decision b1 side_in_check side_legal_moves))))
      else (b, Inr None))"

section \<open>Coordinates\<close>

definition is_in_bounds :: "int \<times> int \<Rightarrow> bool" where
  "is_in_bounds coord =
     (if snd coord < 0 \<or> snd coord > 7 \<or> fst coord < 0 \<or> fst coord > 7 then False else True)"

text \<open>\<^verbatim>\<open>letter_notation\<close>: \<^verbatim>\<open>None\<close> out of bounds; within bounds both indexings succeed,
  so \<^verbatim>\<open>InvalidCoord\<close> is not raised for a pair of integers.\<close>

definition letter_notation :: "int \<times> int \<Rightarrow> key" where
  "letter_notation coord =
     (if \<not> is_in_bounds coord then None
      else Some ([axis_y ! nat (snd coord)] @ str_int (axis_x ! nat (fst coord))))"

section \<open>The codec\<close>

text \<open>\<^verbatim>\<open>re.compile(r'\d').sub(expand, fen[0])\<close>: every digit becomes that many blanks.\<close>

definition expand_blanks :: "string \<Rightarrow> string" where
  "expand_blanks s =
     concat (map (\<lambda>c. if is_digit c then replicate (digit_val c) (CHR '' '') else [c]) s)"

text \<open>The two loops of \<^verbatim>\<open>load\<close>: \<open>x\<close> counts the rows, \<open>y\<close> the letters of a row.\<close>

fun load_row :: "board \<Rightarrow> int \<Rightarrow> int \<Rightarrow> string \<Rightarrow> error + board" where
  "load_row b x y [] = Inr b"
| "load_row b x y (letter # rest) =
     (if letter = CHR '' '' then load_row b x (y + 1) rest
      else (case pieces_piece letter of
              Inl e \<Rightarrow> Inl e
            | Inr p \<Rightarrow>
                load_row (b\<lparr>squares := AList.update (letter_notation (7 - x, y)) (Some p) (squares b)\<rparr>)
                  x (y + 1) rest))"

fun load_rows :: "board \<Rightarrow> int \<Rightarrow> string list \<Rightarrow> error + board" where
  "load_rows b x [] = Inr b"
| "load_rows b x (row # rows) =
     (case load_row b x 0 row of Inl e \<Rightarrow> Inl e | Inr b' \<Rightarrow> load_rows b' (x + 1) rows)"

text \<open>
  \<^verbatim>\<open>load\<close>, for a call that returns. When it raises, the constructor that called it
  raises too and no board results, so the partly loaded board is not represented.
  \<^verbatim>\<open>load\<close> assigns neither \<^verbatim>\<open>in_check\<close> nor \<^verbatim>\<open>in_mate\<close>.
\<close>

definition load :: "board \<Rightarrow> string \<Rightarrow> error + board" where
  "load b fen_text =
     (let fen = split_on (CHR '' '') fen_text;
          placement = expand_blanks (hd fen)
      in case load_rows (b\<lparr>squares := []\<rparr>) 0 (split_on (CHR ''/'') placement) of
           Inl e \<Rightarrow> Inl e
         | Inr b1 \<Rightarrow>
             if length fen < 5 then Inl IndexError
             else (case py_int (fen ! 4) of
                     Inl e \<Rightarrow> Inl e
                   | Inr hm \<Rightarrow>
                       if length fen < 6 then Inl IndexError
                       else (case py_int (fen ! 5) of
                               Inl e \<Rightarrow> Inl e
                             | Inr fm \<Rightarrow>
                                 Inr (b1\<lparr>player_turn := (if fen ! 1 = ''w'' then ''white'' else ''black''),
                                         castling := fen ! 2,
                                         en_passant := fen ! 3,
                                         halfmove_clock := hm,
                                         fullmove_number := fm\<rparr>))))"

text \<open>
  A new instance before \<^verbatim>\<open>__init__\<close> has run: it reads the defaults of the class.
  \<^verbatim>\<open>player_turn\<close> is \<^verbatim>\<open>None\<close> there; \<^verbatim>\<open>load\<close> replaces it before the constructor returns,
  so the empty string stands for it.
\<close>

definition new_instance :: board where
  "new_instance =
     \<lparr>squares = [], player_turn = [], castling = ''-'', en_passant = ''-'',
      halfmove_clock = 0, fullmove_number = 1, in_check = ([], False), in_mate = ([], False)\<rparr>"

definition Board_init :: "string option \<Rightarrow> error + board" where
  "Board_init fen = (case fen of None \<Rightarrow> load new_instance FEN_STARTING | Some f \<Rightarrow> load new_instance f)"

text \<open>\<^verbatim>\<open>itertools.groupby\<close> on a string: the runs of equal characters.\<close>

function groupby :: "string \<Rightarrow> (char \<times> string) list" where
  "groupby [] = []"
| "groupby (c # cs) = (c, c # takeWhile (\<lambda>x. x = c) cs) # groupby (dropWhile (\<lambda>x. x = c) cs)"
  by pat_completeness auto
termination
  by (relation "measure length") (auto simp: length_dropWhile_le less_Suc_eq_le)

definition replace_spaces :: "string \<Rightarrow> string" where
  "replace_spaces row =
     concat (map (\<lambda>(k, g). if k = CHR '' '' then str_int (int (length g)) else g) (groupby row))"

definition export_rank :: "board \<Rightarrow> int \<Rightarrow> error + string" where
  "export_rank b number =
     (case emap (\<lambda>letter. case getitem b (Some (letter # str_int number)) of
                             Inl e \<Rightarrow> Inl e
                           | Inr None \<Rightarrow> Inr '' ''
                           | Inr (Some p) \<Rightarrow> Inr (abbreviation_of p)) axis_y of
        Inl e \<Rightarrow> Inl e
      | Inr cells \<Rightarrow> Inr (concat cells @ ''/''))"

definition export :: "board \<Rightarrow> error + string" where
  "export b =
     (case emap (export_rank b) (rev axis_x) of
        Inl e \<Rightarrow> Inl e
      | Inr ranks \<Rightarrow>
          (case player_turn b of
             [] \<Rightarrow> Inl IndexError
           | t # _ \<Rightarrow>
               Inr (replace_spaces (butlast (concat ranks)) @ '' '' @
                    join_with '' '' [[t], castling b, en_passant b,
                                    str_int (halfmove_clock b), str_int (fullmove_number b)])))"

section \<open>Several boards in one process\<close>

text \<open>
  The attributes of the class body are shared by all instances until an instance
  assigns its own. \<^verbatim>\<open>load\<close> and \<^verbatim>\<open>move\<close> assign every attribute but \<^verbatim>\<open>history\<close> (and
  \<^verbatim>\<open>captured_pieces\<close>, which nothing reads): \<^verbatim>\<open>self.history.append(movetext)\<close> changes
  the list of the class in place. A process is therefore that one list and its boards.
\<close>

record process =
  class_history :: "string list"
  boards :: "board list"

definition construct :: "process \<Rightarrow> string option \<Rightarrow> error + process" where
  "construct pr fen =
     (case Board_init fen of Inl e \<Rightarrow> Inl e | Inr b \<Rightarrow> Inr (pr\<lparr>boards := boards pr @ [b]\<rparr>))"

text \<open>\<^verbatim>\<open>board.history\<close>, read through the instance numbered \<open>i\<close>: the lookup finds no
  attribute on the instance and falls back to the class.\<close>

definition history :: "process \<Rightarrow> nat \<Rightarrow> string list" where
  "history pr i = class_history pr"

definition move_on :: "catalog \<Rightarrow> process \<Rightarrow> nat \<Rightarrow> string \<Rightarrow> string \<Rightarrow> process \<times> error option" where
  "move_on pm pr i p1 p2 =
     (let r = move pm (boards pr ! i, class_history pr) p1 p2
      in (pr\<lparr>boards := (boards pr)[i := fst (fst r)], class_history := snd (fst r)\<rparr>, snd r))"

section \<open>An instance of the piece catalog\<close>

text \<open>
  The theorems below hold for every catalog. To run the functions on concrete
  positions a catalog is needed, and the usual movement rules serve as one: sliding
  pieces stop at the first occupied square and take it when it holds an enemy piece,
  pawns advance onto empty squares and capture diagonally. It plays the part of an
  input; nothing is claimed about the missing module through it.
\<close>

definition std_square :: "key \<Rightarrow> (int \<times> int) option" where
  "std_square k =
     (case k of
        Some [l, d] \<Rightarrow>
          (case (map_of (zip ''12345678'' [0, 1, 2, 3, 4, 5, 6, 7]) d,
                 map_of (zip axis_y [0, 1, 2, 3, 4, 5, 6, 7]) l) of
             (Some r, Some f) \<Rightarrow> Some (r, f)
           | _ \<Rightarrow> None)
      | _ \<Rightarrow> None)"

fun std_ray :: "board \<Rightarrow> string \<Rightarrow> int \<times> int \<Rightarrow> int \<times> int \<Rightarrow> nat \<Rightarrow> string list" where
  "std_ray b c pos d 0 = []"
| "std_ray b c pos d (Suc n) =
     (case letter_notation (fst pos + fst d, snd pos + snd d) of
        None \<Rightarrow> []
      | Some s \<Rightarrow>
          (case dict_get (squares b) (Some s) of
             None \<Rightarrow> s # std_ray b c (fst pos + fst d, snd pos + snd d) d n
           | Some p \<Rightarrow> if color p = c then [] else [s]))"

definition std_orthogonal :: "(int \<times> int) list" where
  "std_orthogonal = [(1, 0), (0, 1), (- 1, 0), (0, - 1)]"

definition std_diagonal :: "(int \<times> int) list" where
  "std_diagonal = [(1, 1), (- 1, 1), (1, - 1), (- 1, - 1)]"

definition std_jumps :: "(int \<times> int) list" where
  "std_jumps = [(2, 1), (2, - 1), (- 2, 1), (- 2, - 1), (1, 2), (1, - 2), (- 1, 2), (- 1, - 2)]"

definition std_free :: "board \<Rightarrow> int \<times> int \<Rightarrow> string list" where
  "std_free b pos =
     (case letter_notation pos of
        None \<Rightarrow> []
      | Some s \<Rightarrow> (case dict_get (squares b) (Some s) of None \<Rightarrow> [s] | Some p \<Rightarrow> []))"

definition std_capture :: "board \<Rightarrow> string \<Rightarrow> int \<times> int \<Rightarrow> string list" where
  "std_capture b c pos =
     (case letter_notation pos of
        None \<Rightarrow> []
      | Some s \<Rightarrow>
          (case dict_get (squares b) (Some s) of
             None \<Rightarrow> []
           | Some p \<Rightarrow> if color p = c then [] else [s]))"

definition std_pawn :: "board \<Rightarrow> string \<Rightarrow> int \<times> int \<Rightarrow> string list" where
  "std_pawn b c pos =
     (let dir = (if c = ''white'' then 1 else - 1);
          home = (if c = ''white'' then 1 else 6);
          one = std_free b (fst pos + dir, snd pos);
          two = (if fst pos = home \<and> one \<noteq> [] then std_free b (fst pos + 2 * dir, snd pos) else [])
      in one @ two @ std_capture b c (fst pos + dir, snd pos - 1)
             @ std_capture b c (fst pos + dir, snd pos + 1))"

definition std_moves :: catalog where
  "std_moves p k b =
     (case std_square k of
        None \<Rightarrow> []
      | Some pos \<Rightarrow>
          (case kind p of
             King \<Rightarrow> concat (map (\<lambda>d. std_ray b (color p) pos d 1) (std_orthogonal @ std_diagonal))
           | Queen \<Rightarrow> concat (map (\<lambda>d. std_ray b (color p) pos d 7) (std_orthogonal @ std_diagonal))
           | Rook \<Rightarrow> concat (map (\<lambda>d. std_ray b (color p) pos d 7) std_orthogonal)
           | Bishop \<Rightarrow> concat (map (\<lambda>d. std_ray b (color p) pos d 7) std_diagonal)
           | Knight \<Rightarrow> concat (map (\<lambda>d. std_ray b (color p) pos d 1) std_jumps)
           | Pawn \<Rightarrow> std_pawn b (color p) pos))"

section \<open>Concrete positions\<close>

definition wK :: piece where
  "wK = \<lparr>kind = King, color = ''white'', abbreviation_of = ''K''\<rparr>"

definition bK :: piece where
  "bK = \<lparr>kind = King, color = ''black'', abbreviation_of = ''k''\<rparr>"

definition wR :: piece where
  "wR = \<lparr>kind = Rook, color = ''white'', abbreviation_of = ''R''\<rparr>"

definition bR :: piece where
  "bR = \<lparr>kind = Rook, color = ''black'', abbreviation_of = ''r''\<rparr>"

definition wP :: piece where
  "wP = \<lparr>kind = Pawn, color = ''white'', abbreviation_of = ''P''\<rparr>"

definition bP :: piece where
  "bP = \<lparr>kind = Pawn, color = ''black'', abbreviation_of = ''p''\<rparr>"

text \<open>White king a1, black rook a2, black king h8, White to move: the board of
  \<^verbatim>\<open>Board('7k/8/8/8/8/8/r7/K7 w - - 0 1')\<close>.\<close>

definition pos_rook :: board where
  "pos_rook =
     \<lparr>squares = [(Some ''H8'', Some bK), (Some ''A2'', Some bR), (Some ''A1'', Some wK)],
      player_turn = ''white'', castling = ''-'', en_passant = ''-'',
      halfmove_clock = 0, fullmove_number = 1, in_check = ([], False), in_mate = ([], False)\<rparr>"

text \<open>Black king a8, white king a6, white rook h1, White to move
  (\<^verbatim>\<open>'k7/8/K7/8/8/8/8/7R w - - 3 1'\<close>), and the board after the rook has moved to h8.\<close>

definition pos_before_mate :: board where
  "pos_before_mate =
     \<lparr>squares = [(Some ''A8'', Some bK), (Some ''A6'', Some wK), (Some ''H1'', Some wR)],
      player_turn = ''white'', castling = ''-'', en_passant = ''-'',
      halfmove_clock = 3, fullmove_number = 1, in_check = ([], False), in_mate = ([], False)\<rparr>"

definition pos_mate :: board where
  "pos_mate =
     \<lparr>squares = [(Some ''A8'', Some bK), (Some ''A6'', Some wK), (Some ''H8'', Some wR)],
      player_turn = ''black'', castling = ''-'', en_passant = ''-'',
      halfmove_clock = 4, fullmove_number = 1, in_check = (''black'', True), in_mate = ([], False)\<rparr>"

text \<open>Kings on e8 and e1, a black pawn on e7, Black to move
  (\<^verbatim>\<open>'4k3/4p3/8/8/8/8/8/4K3 b - - 5 10'\<close>).\<close>

definition pos_black_pawn :: board where
  "pos_black_pawn =
     \<lparr>squares = [(Some ''E8'', Some bK), (Some ''E7'', Some bP), (Some ''E1'', Some wK)],
      player_turn = ''black'', castling = ''-'', en_passant = ''-'',
      halfmove_clock = 5, fullmove_number = 10, in_check = ([], False), in_mate = ([], False)\<rparr>"

text \<open>A white king on a1 and nothing else (\<^verbatim>\<open>'8/8/8/8/8/8/8/K7 w - - 0 1'\<close>).\<close>

definition pos_lone_king :: board where
  "pos_lone_king =
     \<lparr>squares = [(Some ''A1'', Some wK)],
      player_turn = ''white'', castling = ''-'', en_passant = ''-'',
      halfmove_clock = 0, fullmove_number = 1, in_check = ([], False), in_mate = ([], False)\<rparr>"

text \<open>The starting position, and the position after the white pawn has gone from e2
  to e4.\<close>

definition start_board :: board where
  "start_board =
     \<lparr>squares =
       [(Some ''A8'', Some \<lparr>kind = Rook, color = ''black'', abbreviation_of = ''r''\<rparr>),
        (Some ''B8'', Some \<lparr>kind = Knight, color = ''black'', abbreviation_of = ''n''\<rparr>),
        (Some ''C8'', Some \<lparr>kind = Bishop, color = ''black'', abbreviation_of = ''b''\<rparr>),
        (Some ''D8'', Some \<lparr>kind = Queen, color = ''black'', abbreviation_of = ''q''\<rparr>),
        (Some ''E8'', Some \<lparr>kind = King, color = ''black'', abbreviation_of = ''k''\<rparr>),
        (Some ''F8'', Some \<lparr>kind = Bishop, color = ''black'', abbreviation_of = ''b''\<rparr>),
        (Some ''G8'', Some \<lparr>kind = Knight, color = ''black'', abbreviation_of = ''n''\<rparr>),
        (Some ''H8'', Some \<lparr>kind = Rook, color = ''black'', abbreviation_of = ''r''\<rparr>),
        (Some ''A7'', Some \<lparr>kind = Pawn, color = ''black'', abbreviation_of = ''p''\<rparr>),
        (Some ''B7'', Some \<lparr>kind = Pawn, color = ''black'', abbreviation_of = ''p''\<rparr>),
        (Some ''C7'', Some \<lparr>kind = Pawn, color = ''black'', abbreviation_of = ''p''\<rparr>),
        (Some ''D7'', Some \<lparr>kind = Pawn, color = ''black'', abbreviation_of = ''p''\<rparr>),
        (Some ''E7'', Some \<lparr>kind = Pawn, color = ''black'', abbreviation_of = ''p''\<rparr>),
        (Some ''F7'', Some \<lparr>kind = Pawn, color = ''black'', abbreviation_of = ''p''\<rparr>),
        (Some ''G7'', Some \<lparr>kind = Pawn, color = ''black'', abbreviation_of = ''p''\<rparr>),
        (Some ''H7'', Some \<lparr>kind = Pawn, color = ''black'', abbreviation_of = ''p''\<rparr>),
        (Some ''A2'', Some \<lparr>kind = Pawn, color = ''white'', abbreviation_of = ''P''\<rparr>),
        (Some ''B2'', Some \<lparr>kind = Pawn, color = ''white'', abbreviation_of = ''P''\<rparr>),
        (Some ''C2'', Some \<lparr>kind = Pawn, color = ''white'', abbreviation_of = ''P''\<rparr>),
        (Some ''D2'', Some \<lparr>kind = Pawn, color = ''white'', abbreviation_of = ''P''\<rparr>),
        (Some ''E2'', Some \<lparr>kind = Pawn, color = ''white'', abbreviation_of = ''P''\<rparr>),
        (Some ''F2'', Some \<lparr>kind = Pawn, color = ''white'', abbreviation_of = ''P''\<rparr>),
        (Some ''G2'', Some \<lparr>kind = Pawn, color = ''white'', abbreviation_of = ''P''\<rparr>),
        (Some ''H2'', Some \<lparr>kind = Pawn, color = ''white'', abbreviation_of = ''P''\<rparr>),
        (Some ''A1'', Some \<lparr>kind = Rook, color = ''white'', abbreviation_of = ''R''\<rparr>),
        (Some ''B1'', Some \<lparr>kind = Knight, color = ''white'', abbreviation_of = ''N''\<rparr>),
        (Some ''C1'', Some \<lparr>kind = Bishop, color = ''white'', abbreviation_of = ''B''\<rparr>),
        (Some ''D1'', Some \<lparr>kind = Queen, color = ''white'', abbreviation_of = ''Q''\<rparr>),
        (Some ''E1'', Some \<lparr>kind = King, color = ''white'', abbreviation_of = ''K''\<rparr>),
        (Some ''F1'', Some \<lparr>kind = Bishop, color = ''white'', abbreviation_of = ''B''\<rparr>),
        (Some ''G1'', Some \<lparr>kind = Knight, color = ''white'', abbreviation_of = ''N''\<rparr>),
        (Some ''H1'', Some \<lparr>kind = Rook, color = ''white'', abbreviation_of = ''R''\<rparr>)],
      player_turn = ''white'', castling = ''KQkq'', en_passant = ''-'',
      halfmove_clock = 0, fullmove_number = 1, in_check = ([], False), in_mate = ([], False)\<rparr>"

definition after_e4 :: board where
  "after_e4 =
     \<lparr>squares =
       [(Some ''A8'', Some \<lparr>kind = Rook, color = ''black'', abbreviation_of = ''r''\<rparr>),
        (Some ''B8'', Some \<lparr>kind = Knight, color = ''black'', abbreviation_of = ''n''\<rparr>),
        (Some ''C8'', Some \<lparr>kind = Bishop, color = ''black'', abbreviation_of = ''b''\<rparr>),
        (Some ''D8'', Some \<lparr>kind = Queen, color = ''black'', abbreviation_of = ''q''\<rparr>),
        (Some ''E8'', Some \<lparr>kind = King, color = ''black'', abbreviation_of = ''k''\<rparr>),
        (Some ''F8'', Some \<lparr>kind = Bishop, color = ''black'', abbreviation_of = ''b''\<rparr>),
        (Some ''G8'', Some \<lparr>kind = Knight, color = ''black'', abbreviation_of = ''n''\<rparr>),
        (Some ''H8'', Some \<lparr>kind = Rook, color = ''black'', abbreviation_of = ''r''\<rparr>),
        (Some ''A7'', Some \<lparr>kind = Pawn, color = ''black'', abbreviation_of = ''p''\<rparr>),
        (Some ''B7'', Some \<lparr>kind = Pawn, color = ''black'', abbreviation_of = ''p''\<rparr>),
        (Some ''C7'', Some \<lparr>kind = Pawn, color = ''black'', abbreviation_of = ''p''\<rparr>),
        (Some ''D7'', Some \<lparr>kind = Pawn, color = ''black'', abbreviation_of = ''p''\<rparr>),
        (Some ''E7'', Some \<lparr>kind = Pawn, color = ''black'', abbreviation_of = ''p''\<rparr>),
        (Some ''F7'', Some \<lparr>kind = Pawn, color = ''black'', abbreviation_of = ''p''\<rparr>),
        (Some ''G7'', Some \<lparr>kind = Pawn, color = ''black'', abbreviation_of = ''p''\<rparr>),
        (Some ''H7'', Some \<lparr>kind = Pawn, color = ''black'', abbreviation_of = ''p''\<rparr>),
        (Some ''A2'', Some \<lparr>kind = Pawn, color = ''white'', abbreviation_of = ''P''\<rparr>),
        (Some ''B2'', Some \<lparr>kind = Pawn, color = ''white'', abbreviation_of = ''P''\<rparr>),
        (Some ''C2'', Some \<lparr>kind = Pawn, color = ''white'', abbreviation_of = ''P''\<rparr>),
        (Some ''D2'', Some \<lparr>kind = Pawn, color = ''white'', abbreviation_of = ''P''\<rparr>),
        (Some ''F2'', Some \<lparr>kind = Pawn, color = ''white'', abbreviation_of = ''P''\<rparr>),
        (Some ''G2'', Some \<lparr>kind = Pawn, color = ''white'', abbreviation_of = ''P''\<rparr>),
        (Some ''H2'', Some \<lparr>kind = Pawn, color = ''white'', abbreviation_of = ''P''\<rparr>),
        (Some ''A1'', Some \<lparr>kind = Rook, color = ''white'', abbreviation_of = ''R''\<rparr>),
        (Some ''B1'', Some \<lparr>kind = Knight, color = ''white'', abbreviation_of = ''N''\<rparr>),
        (Some ''C1'', Some \<lparr>kind = Bishop, color = ''white'', abbreviation_of = ''B''\<rparr>),
        (Some ''D1'', Some \<lparr>kind = Queen, color = ''white'', abbreviation_of = ''Q''\<rparr>),
        (Some ''E1'', Some \<lparr>kind = King, color = ''white'', abbreviation_of = ''K''\<rparr>),
        (Some ''F1'', Some \<lparr>kind = Bishop, color = ''white'', abbreviation_of = ''B''\<rparr>),
        (Some ''G1'', Some \<lparr>kind = Knight, color = ''white'', abbreviation_of = ''N''\<rparr>),
        (Some ''H1'', Some \<lparr>kind = Rook, color = ''white'', abbreviation_of = ''R''\<rparr>),
        (Some ''E4'', Some \<lparr>kind = Pawn, color = ''white'', abbreviation_of = ''P''\<rparr>)],
      player_turn = ''black'', castling = ''KQkq'', en_passant = ''-'',
      halfmove_clock = 0, fullmove_number = 1, in_check = ([], False), in_mate = ([], False)\<rparr>"

text \<open>Processes with several boards made from \<^verbatim>\<open>'k7/8/K7/8/8/8/8/7R w - - 3 1'\<close>.\<close>

definition mate_fen :: string where
  "mate_fen = ''k7/8/K7/8/8/8/8/7R w - - 3 1''"

definition one_board :: process where
  "one_board = \<lparr>class_history = [], boards = [pos_before_mate]\<rparr>"

definition two_boards :: process where
  "two_boards = \<lparr>class_history = [], boards = [pos_before_mate, pos_before_mate]\<rparr>"

definition two_boards_moved :: process where
  "two_boards_moved = \<lparr>class_history = [''Rh8''], boards = [pos_mate, pos_before_mate]\<rparr>"

definition three_boards :: process where
  "three_boards =
     \<lparr>class_history = [''Rh8''], boards = [pos_mate, pos_before_mate, pos_before_mate]\<rparr>"

section \<open>Notions used in the statements\<close>

text \<open>
  What the spec asks of the piece catalog: its destinations are squares of the board.
  \<open>catalog_squares_ok\<close> says so; \<open>catalog_names_ok\<close> is the weaker condition that every
  destination is a name which \<^verbatim>\<open>Board.__getitem__\<close> accepts.
\<close>

fun square_name :: "string \<Rightarrow> bool" where
  "square_name [l, d] = (l \<in> set axis_y \<and> d \<in> set ''12345678'')"
| "square_name _ = False"

definition catalog_squares_ok :: "catalog \<Rightarrow> bool" where
  "catalog_squares_ok pm = (\<forall>p k b. list_all square_name (pm p k b))"

definition catalog_names_ok :: "catalog \<Rightarrow> bool" where
  "catalog_names_ok pm = (\<forall>p k b. list_all (\<lambda>m. RANK_REGEX_match (py_upper m)) (pm p k b))"

text \<open>The boards reachable from the starting position by successful calls of
  \<^verbatim>\<open>move\<close>; the history list of the class may hold anything at each call.\<close>

inductive reachable :: "catalog \<Rightarrow> board \<Rightarrow> bool" for pm :: catalog where
  start: "Board_init None = Inr b \<Longrightarrow> reachable pm b"
| step: "reachable pm b \<Longrightarrow> move pm (b, h) p1 p2 = ((b', h'), None) \<Longrightarrow> reachable pm b'"

text \<open>A board whose keys are upper-case square names accepted by \<^verbatim>\<open>__getitem__\<close>, and a
  board without a king of a colour.\<close>

definition key_ok :: "key \<Rightarrow> bool" where
  "key_ok k = (case k of None \<Rightarrow> False | Some s \<Rightarrow> RANK_REGEX_match s \<and> py_upper s = s)"

definition keys_ok :: "board \<Rightarrow> bool" where
  "keys_ok b = list_all key_ok (map fst (squares b))"

definition no_king :: "board \<Rightarrow> string \<Rightarrow> bool" where
  "no_king b c = list_all (\<lambda>v. \<not> (is_king v \<and> map_option color v = Some c)) (map snd (squares b))"

text \<open>\<^verbatim>\<open>self[k]\<close> returns, rather than raising.\<close>

definition resolves :: "board \<Rightarrow> key \<Rightarrow> bool" where
  "resolves b k = (\<not> isl (getitem b k))"

text \<open>
  The invariant of the reachable boards: every entry has a square name as its key and
  a piece made by the factory as its value, the active colour is one of the two, and
  the two opaque fields hold no blank.
\<close>

definition canonical :: "piece \<Rightarrow> bool" where
  "canonical p = (pieces_piece (hd (abbreviation_of p)) = Inr p)"

definition entry_ok :: "key \<times> piece option \<Rightarrow> bool" where
  "entry_ok e =
     ((case fst e of None \<Rightarrow> False | Some s \<Rightarrow> square_name s) \<and>
      (case snd e of None \<Rightarrow> False | Some p \<Rightarrow> canonical p))"

definition wf_board :: "board \<Rightarrow> bool" where
  "wf_board b =
     (list_all entry_ok (squares b) \<and> valid_color (player_turn b) \<and>
      CHR '' '' \<notin> set (castling b) \<and> CHR '' '' \<notin> set (en_passant b))"

text \<open>
  The placement field seen from both sides: the coordinates in the order in which
  \<^verbatim>\<open>export\<close> and \<^verbatim>\<open>load\<close> visit them, the character \<^verbatim>\<open>export\<close> writes for a square, the
  eight rows it writes, and the store \<^verbatim>\<open>load\<close> performs for a square.
\<close>

definition files :: "int list" where
  "files = [0, 1, 2, 3, 4, 5, 6, 7]"

definition all_coords :: "(int \<times> int) list" where
  "all_coords = concat (map (\<lambda>x. map (\<lambda>y. (7 - x, y)) files) files)"

definition cell :: "(key \<times> piece option) list \<Rightarrow> int \<times> int \<Rightarrow> char" where
  "cell d c =
     (case dict_get d (letter_notation c) of None \<Rightarrow> CHR '' '' | Some p \<Rightarrow> hd (abbreviation_of p))"

definition board_rows :: "(key \<times> piece option) list \<Rightarrow> string list" where
  "board_rows d = map (\<lambda>x. map (\<lambda>y. cell d (7 - x, y)) files) files"

definition place :: "(key \<times> piece option) list \<Rightarrow> board \<Rightarrow> int \<times> int \<Rightarrow> board" where
  "place d b c =
     (case dict_get d (letter_notation c) of
        None \<Rightarrow> b
      | Some p \<Rightarrow> b\<lparr>squares := AList.update (letter_notation c) (Some p) (squares b)\<rparr>)"

fun consecutive :: "int \<Rightarrow> int list \<Rightarrow> bool" where
  "consecutive y [] = True"
| "consecutive y (z # zs) = (z = y \<and> consecutive (y + 1) zs)"

section \<open>Basic facts\<close>

lemma upper_char_idem: "upper_char (upper_char c) = upper_char c"
proof (cases "map_of (zip lower_letters upper_letters) c")
  case None
  then show ?thesis by (simp add: upper_char_def)
next
  case (Some u)
  then have "u \<in> set upper_letters"
    by (meson map_of_SomeD set_zip_rightD)
  moreover have "\<forall>v \<in> set upper_letters. map_of (zip lower_letters upper_letters) v = None"
    by (simp add: upper_letters_def lower_letters_def)
  ultimately show ?thesis using Some by (simp add: upper_char_def)
qed

lemma py_upper_idem: "py_upper (py_upper s) = py_upper s"
  by (simp add: py_upper_def upper_char_idem)

lemma getitem_Some:
  "getitem b (Some s) =
     (if RANK_REGEX_match (py_upper s) then Inr (dict_get (squares b) (Some (py_upper s)))
      else Inl KeyError)"
  by (simp add: py_upper_idem)


lemma load_pos_rook: "Board_init (Some ''7k/8/8/8/8/8/r7/K7 w - - 0 1'') = Inr pos_rook"
  by code_simp

declare getitem.simps [simp del]

section \<open>Square names\<close>

text \<open>
  C10. Square names are case-insensitive at the public interface: for every board and
  every string \<open>s\<close> (in particular every letter a-h or A-H followed by a digit 1-8),
  \<^verbatim>\<open>b[s]\<close> is \<^verbatim>\<open>b[s.upper()]\<close>, and \<^verbatim>\<open>move\<close> with lower-case or mixed-case names does
  exactly what it does with their upper-case forms: same resulting state, same outcome.
\<close>

theorem square_names_case_insensitive:
  "getitem b (Some s) = getitem b (Some (py_upper s)) \<and>
   move pm st p1 p2 = move pm st (py_upper p1) (py_upper p2)"
  by (simp add: move_def py_upper_idem getitem.simps)

section \<open>Moving from an empty square\<close>




section \<open>The halfmove clock\<close>

text \<open>
  C6 says that a successful pawn move, of either colour, sets the halfmove clock to 0.
  \<^verbatim>\<open>_finish_move\<close> resets the clock under the comment "Pawn resets halfmove_clock", but
  its test is \<^verbatim>\<open>abbr == 'P'\<close>, and the abbreviation of a black pawn is the lower-case
  letter that \<^verbatim>\<open>export\<close> writes. On \<open>pos_black_pawn\<close> (clock 5) the black pawn moves
  from e7 to the empty square e6: the move succeeds, the clock is 6 and the record in
  the history is \<open>pe6\<close>.
\<close>

theorem black_pawn_move_keeps_clock_running:
  "Board_init (Some ''4k3/4p3/8/8/8/8/8/4K3 b - - 5 10'') = Inr pos_black_pawn \<and>
   getitem pos_black_pawn (Some ''E7'') = Inr (Some bP) \<and> kind bP = Pawn \<and>
   getitem pos_black_pawn (Some ''E6'') = Inr None \<and>
   snd (move std_moves (pos_black_pawn, []) ''E7'' ''E6'') = None \<and>
   halfmove_clock pos_black_pawn = 5 \<and>
   halfmove_clock (fst (fst (move std_moves (pos_black_pawn, []) ''E7'' ''E6''))) = 6 \<and>
   snd (fst (move std_moves (pos_black_pawn, []) ''E7'' ''E6'')) = [''pe6'']"
  by code_simp

text \<open>What \<^verbatim>\<open>_finish_move\<close> does to the clock, for every piece.\<close>

lemma finish_move_halfmove_clock:
  "halfmove_clock (fst (finish_move (b, h) pc dest p2)) =
     (if dest \<noteq> None \<or> abbreviation_of pc = ''P'' then 0 else halfmove_clock b + 1)"
  by (simp add: finish_move_def Let_def)

section \<open>Legal moves\<close>

text \<open>
  C3 says that \<^verbatim>\<open>all_legal_piece_moves\<close> returns exactly the pseudo-legal destinations
  that do not leave the mover's king attacked, and nothing else. The list it returns
  has one entry per pseudo-legal destination: the destination when it is safe, and
  \<^verbatim>\<open>None\<close> when it is not, because the mapped function returns nothing in that case. On
  \<open>pos_rook\<close> the white king on a1 has the candidates a2, b1 and b2; b2 is attacked by
  the rook, and the list returned is \<^verbatim>\<open>['A2', 'B1', None]\<close>.
\<close>

theorem legal_piece_moves_hold_placeholders:
  "Board_init (Some ''7k/8/8/8/8/8/r7/K7 w - - 0 1'') = Inr pos_rook \<and>
   std_moves wK (Some ''A1'') pos_rook = [''A2'', ''B1'', ''B2''] \<and>
   is_in_check_after_move std_moves pos_rook (Some ''A1'') (Some ''B2'') = Inr True \<and>
   all_legal_piece_moves std_moves pos_rook (Some ''A1'') = Inr [Some ''A2'', Some ''B1'', None]"
  by code_simp

text \<open>
  C2 says that \<^verbatim>\<open>all_legal_side_moves\<close> returns the mapping from every origin of the
  colour with a legal move to its legal destinations. The function returns the empty
  dictionary for either colour on every board: the entries are computed, if at all, in
  worker processes. On \<open>pos_rook\<close> the white king has legal moves, which the closure
  would enter under a1, and the mapping returned for White is empty.
\<close>

theorem legal_side_moves_always_empty:
  "all_legal_side_moves std_moves pos_rook ''white'' = Inr [] \<and>
   add_move_side std_moves pos_rook ''white'' (Some ''A1'') [] =
     Inr [(Some ''A1'', [Some ''A2'', Some ''B1'', None])]"
  by code_simp

section \<open>Checkmate\<close>

text \<open>
  C1 says that \<^verbatim>\<open>evaluate_board\<close> declares checkmate when the side flagged as in check
  has no legal move, and reports nothing otherwise. On \<open>pos_before_mate\<close> White plays the
  rook from h1 to h8. The move succeeds and flags Black as in check; the black king, the
  only black piece, has three candidates and none is safe. \<^verbatim>\<open>evaluate_board\<close> then returns
  the empty string and leaves \<^verbatim>\<open>in_mate\<close> at \<^verbatim>\<open>("", False)\<close>.
\<close>

theorem checkmate_not_reported:
  "move std_moves (pos_before_mate, []) ''H1'' ''H8'' = ((pos_mate, [''Rh8'']), None) \<and>
   in_check pos_mate = (''black'', True) \<and>
   all_legal_piece_moves std_moves pos_mate (Some ''A8'') = Inr [None, None, None] \<and>
   evaluate_board std_moves pos_mate = (pos_mate, Inr (Some []))"
  by code_simp

text \<open>
  The decision taken after the side's moves are known is the reverse of what the
  comments of \<^verbatim>\<open>evaluate_board\<close> describe: an empty mapping ends the function with the
  empty string, a non-empty one with the checkmate message.
\<close>

lemma mate_decision_empty:
  "snd (mate_decision (b\<lparr>in_mate := (c, True)\<rparr>) c []) = Some []"
  by (simp add: mate_decision_def)

lemma mate_decision_nonempty:
  "slm \<noteq> [] \<Longrightarrow>
   snd (mate_decision (b\<lparr>in_mate := (c, True)\<rparr>) c slm) = Some (c @ '' is in checkmate!'')"
  by (simp add: mate_decision_def)

section \<open>Keys, kings and the check test\<close>

lemma getitem_key_ok: "key_ok k \<Longrightarrow> getitem b k = Inr (dict_get (squares b) k)"
  by (cases k) (auto simp: key_ok_def getitem_Some)

lemma dict_get_in_values: "dict_get d k = Some p \<Longrightarrow> Some p \<in> snd ` set d"
  by (auto simp: dict_get_def split: option.splits dest!: map_of_SomeD intro: rev_image_eqI)

lemma dict_get_no_king:
  assumes "list_all (\<lambda>v. \<not> (is_king v \<and> map_option color v = Some c)) (map snd d)"
  shows "\<not> (is_king (dict_get d k) \<and> map_option color (dict_get d k) = Some c)"
proof (cases "dict_get d k")
  case None
  then show ?thesis by (simp add: is_king_def)
next
  case (Some p)
  then have "Some p \<in> snd ` set d" by (rule dict_get_in_values)
  with assms have "\<not> (is_king (Some p) \<and> map_option color (Some p) = Some c)"
    by (force simp: list_all_iff)
  then show ?thesis by (simp add: Some)
qed

lemma get_king_position_loop_no_king:
  "list_all key_ok ks \<Longrightarrow> no_king b c \<Longrightarrow> get_king_position_loop b c ks = Inr None"
proof (induction ks)
  case Nil
  then show ?case by simp
next
  case (Cons k ks)
  from Cons.prems have "getitem b k = Inr (dict_get (squares b) k)"
    by (simp add: getitem_key_ok)
  moreover from Cons.prems(2)
  have "\<not> (is_king (dict_get (squares b) k) \<and> map_option color (dict_get (squares b) k) = Some c)"
    unfolding no_king_def by (rule dict_get_no_king)
  ultimately show ?case using Cons.IH Cons.prems by auto
qed

lemma dict_get_None_key: "list_all key_ok (map fst d) \<Longrightarrow> dict_get d None = None"
proof -
  assume a: "list_all key_ok (map fst d)"
  have "None \<notin> fst ` set d"
  proof
    assume "None \<in> fst ` set d"
    with a have "key_ok None" by (auto simp: list_all_iff)
    then show False by (simp add: key_ok_def)
  qed
  then have "map_of d None = None" by (simp add: map_of_eq_None_iff)
  then show ?thesis by (simp add: dict_get_def)
qed

lemma all_possible_moves_loop_total:
  "list_all (resolves b) ks \<Longrightarrow> \<exists>r. all_possible_moves_loop pm b c ks acc = Inr r"
proof (induction ks arbitrary: acc)
  case Nil
  then show ?case by simp
next
  case (Cons k ks)
  then obtain v where v: "getitem b k = Inr v"
    by (cases "getitem b k") (auto simp: resolves_def)
  from Cons have ih: "\<And>acc. \<exists>r. all_possible_moves_loop pm b c ks acc = Inr r" by simp
  show ?case using v ih by (cases v) (simp_all add: Let_def)
qed

lemma all_possible_moves_loop_resolves:
  "all_possible_moves_loop pm b c ks acc = Inr r \<Longrightarrow> list_all (resolves b) ks"
proof (induction ks arbitrary: acc)
  case Nil
  then show ?case by simp
next
  case (Cons k ks)
  show ?case
  proof (cases "getitem b k")
    case (Inl e)
    with Cons.prems show ?thesis by simp
  next
    case (Inr v)
    then have "resolves b k" by (simp add: resolves_def)
    moreover have "list_all (resolves b) ks"
      using Cons.prems Inr Cons.IH
      by (cases v) (auto simp: Let_def split: if_splits)
    ultimately show ?thesis by simp
  qed
qed

lemma all_possible_moves_loop_from_catalog:
  "all_possible_moves_loop pm b c ks acc = Inr r \<Longrightarrow> list_all P acc \<Longrightarrow>
   (\<And>p k. list_all P (pm p k b)) \<Longrightarrow> list_all P r"
proof (induction ks arbitrary: acc)
  case Nil
  then show ?case by simp
next
  case (Cons k ks)
  show ?case
  proof (cases "getitem b k")
    case (Inl e)
    with Cons.prems show ?thesis by simp
  next
    case (Inr v)
    show ?thesis
    proof (cases v)
      case None
      with Inr Cons show ?thesis by simp
    next
      case (Some p)
      have "list_all P (acc @ pm p k b)" using Cons.prems(2,3) by simp
      with Inr Some Cons show ?thesis by (auto simp: Let_def split: if_splits)
    qed
  qed
qed

lemma get_king_position_loop_total:
  "list_all (resolves b) ks \<Longrightarrow>
   \<exists>pos. get_king_position_loop b c ks = Inr pos \<and> (pos = None \<or> pos \<in> set ks)"
proof (induction ks)
  case Nil
  then show ?case by simp
next
  case (Cons k ks)
  then obtain v where v: "getitem b k = Inr v"
    by (cases "getitem b k") (auto simp: resolves_def)
  with Cons show ?case by auto
qed

lemma getitem_None_total: "getitem b None = Inr (dict_get (squares b) None)"
  by (simp add: getitem.simps)

lemma getitem_ref_total: "getitem b k = Inr v \<Longrightarrow> \<exists>r. getitem_ref b k = Inr r"
  by (cases v) (simp_all add: getitem_ref_def)

lemma emap_Inr: "(\<And>x. x \<in> set xs \<Longrightarrow> f x = Inr (g x)) \<Longrightarrow> emap f xs = Inr (map g xs)"
  by (induction xs) simp_all

lemma emap_total: "list_all (\<lambda>x. \<exists>y. f x = Inr y) xs \<Longrightarrow> \<exists>ys. emap f xs = Inr ys"
  by (induction xs) auto

lemma emap_Inr_elem: "emap f xs = Inr ys \<Longrightarrow> y \<in> set ys \<Longrightarrow> \<exists>x \<in> set xs. f x = Inr y"
  by (induction xs arbitrary: ys) (auto split: sum.splits)

lemma valid_color_get_enemy: "valid_color (get_enemy c)"
  by (simp add: valid_color_def get_enemy_def)

lemma is_in_check_total:
  assumes c: "valid_color c" and ks: "list_all (resolves b) (map fst (squares b))"
    and pm: "catalog_names_ok pm"
  shows "\<exists>r. is_in_check pm b c = Inr r"
proof -
  from get_king_position_loop_total [OF ks, of c]
  obtain pos where pos: "get_king_position b c = Inr pos"
    and mem: "pos = None \<or> pos \<in> set (map fst (squares b))"
    by (auto simp: get_king_position_def)
  have "\<exists>v. getitem b pos = Inr v"
  proof (cases "pos = None")
    case True
    then show ?thesis by (simp add: getitem_None_total)
  next
    case False
    with mem ks have "resolves b pos" by (auto simp: list_all_iff)
    then show ?thesis by (cases "getitem b pos") (auto simp: resolves_def)
  qed
  then obtain king where king: "getitem_ref b pos = Inr king"
    using getitem_ref_total by blast
  from all_possible_moves_loop_total [OF ks, of pm "get_enemy c" "[]"]
  obtain ms where ms: "all_possible_moves pm b (get_enemy c) = Inr ms"
    by (auto simp: all_possible_moves_def valid_color_get_enemy)
  then have loop: "all_possible_moves_loop pm b (get_enemy c) (map fst (squares b)) [] = Inr ms"
    by (simp add: all_possible_moves_def valid_color_get_enemy)
  have "list_all (\<lambda>m. RANK_REGEX_match (py_upper m)) ms"
    by (rule all_possible_moves_loop_from_catalog [OF loop]) (use pm in \<open>simp_all add: catalog_names_ok_def\<close>)
  then have "list_all (\<lambda>m. \<exists>y. getitem_ref b (Some m) = Inr y) ms"
    by (auto simp: list_all_iff getitem_Some intro!: getitem_ref_total)
  from emap_total [OF this] obtain occ where "emap (\<lambda>m. getitem_ref b (Some m)) ms = Inr occ" ..
  with c pos king ms show ?thesis
    by (simp add: is_in_check_def get_king_def)
qed

lemma is_in_check_resolves:
  assumes "is_in_check pm b c = Inr r"
  shows "list_all (resolves b) (map fst (squares b))"
proof -
  have "\<exists>ms. all_possible_moves pm b (get_enemy c) = Inr ms"
  proof (cases "all_possible_moves pm b (get_enemy c)")
    case (Inl e)
    with assms show ?thesis
      by (simp add: is_in_check_def split: if_splits sum.splits)
  next
    case (Inr ms)
    then show ?thesis by simp
  qed
  then obtain ms where "all_possible_moves pm b (get_enemy c) = Inr ms" ..
  then have "all_possible_moves_loop pm b (get_enemy c) (map fst (squares b)) [] = Inr ms"
    by (simp add: all_possible_moves_def split: if_splits)
  then show ?thesis by (rule all_possible_moves_loop_resolves)
qed

lemma resolves_squares: "squares b = squares b' \<Longrightarrow> resolves b k = resolves b' k"
  by (cases k) (simp_all add: resolves_def getitem.simps Let_def)

lemma squares_finish_move: "squares (fst (finish_move (b, h) pc dest p2)) = squares b"
  by (simp add: finish_move_def Let_def)

section \<open>The outcomes of a move\<close>

lemma move_outcome:
  "(\<exists>e. move pm st p1 p2 = (st, Some e)) \<or>
   (\<exists>pc dest legal b1.
      getitem (fst st) (Some (py_upper p1)) = Inr (Some pc) \<and>
      getitem (fst st) (Some (py_upper p2)) = Inr dest \<and>
      player_turn (fst st) = color pc \<and>
      all_legal_piece_moves pm (fst st) (Some (py_upper p1)) = Inr legal \<and>
      Some (py_upper p2) \<in> set legal \<and>
      do_move (fst st) (Some (py_upper p1)) (Some (py_upper p2)) = Inr b1 \<and>
      move pm st p1 p2 =
        (case is_in_check pm (fst (finish_move (b1, snd st) pc dest (py_upper p2)))
                (get_enemy (color pc)) of
           Inl e \<Rightarrow> (finish_move (b1, snd st) pc dest (py_upper p2), Some e)
         | Inr chk \<Rightarrow>
             ((fst (finish_move (b1, snd st) pc dest (py_upper p2))
                 \<lparr>in_check := (if chk then (get_enemy (color pc), True) else ([], False))\<rparr>,
               snd (finish_move (b1, snd st) pc dest (py_upper p2))), None)))"
proof (cases "getitem (fst st) (Some (py_upper p1))")
  case (Inl e)
  then show ?thesis by (simp add: move_def Let_def)
next
  case g1: (Inr piece)
  show ?thesis
  proof (cases "getitem (fst st) (Some (py_upper p2))")
    case (Inl e)
    with g1 show ?thesis by (simp add: move_def Let_def)
  next
    case g2: (Inr dest)
    show ?thesis
    proof (cases piece)
      case None
      with g1 g2 show ?thesis by (simp add: move_def Let_def)
    next
      case (Some pc)
      show ?thesis
      proof (cases "all_legal_piece_moves pm (fst st) (Some (py_upper p1))")
        case (Inl e)
        with g1 g2 Some show ?thesis by (simp add: move_def Let_def)
      next
        case l: (Inr legal)
        show ?thesis
        proof (cases "do_move (fst st) (Some (py_upper p1)) (Some (py_upper p2))")
          case (Inl e)
          with g1 g2 Some l show ?thesis by (simp add: move_def Let_def)
        next
          case d: (Inr b1)
          show ?thesis
          proof (cases "player_turn (fst st) = color pc \<and> Some (py_upper p2) \<in> set legal")
            case False
            with g1 g2 Some l d show ?thesis by (auto simp: move_def Let_def)
          next
            case True
            with g1 g2 Some l d have
              "move pm st p1 p2 =
                (case is_in_check pm (fst (finish_move (b1, snd st) pc dest (py_upper p2)))
                        (get_enemy (color pc)) of
                   Inl e \<Rightarrow> (finish_move (b1, snd st) pc dest (py_upper p2), Some e)
                 | Inr chk \<Rightarrow>
                     ((fst (finish_move (b1, snd st) pc dest (py_upper p2))
                         \<lparr>in_check := (if chk then (get_enemy (color pc), True) else ([], False))\<rparr>,
                       snd (finish_move (b1, snd st) pc dest (py_upper p2))), None))"
              by (simp add: move_def Let_def)
            with g1 g2 Some l d True show ?thesis by blast
          qed
        qed
      qed
    qed
  qed
qed

lemma legal_move_simulated:
  assumes "all_legal_piece_moves pm b origin = Inr legal" and "Some d \<in> set legal"
  shows "is_in_check_after_move pm b origin (Some d) = Inr False"
proof -
  from assms(1) obtain ms where "emap (add_move pm b origin) ms = Inr legal"
    by (auto simp: all_legal_piece_moves_def split: sum.splits option.splits)
  from emap_Inr_elem [OF this assms(2)] obtain m where
    "add_move pm b origin m = Inr (Some d)" by blast
  then show ?thesis
    by (auto simp: add_move_def split: sum.splits if_splits)
qed

text \<open>
  C4. A call of \<^verbatim>\<open>move\<close> that fails, with whatever error (\<open>NotYourTurn\<close>, \<open>InvalidMove\<close>,
  \<open>KeyError\<close>, \<open>AttributeError\<close>, \<open>InvalidColor\<close>), leaves the whole state as it was: the
  board with its occupants, active colour, clocks and flags, and the history. This holds
  for every board and every catalog whose destinations are names that \<^verbatim>\<open>__getitem__\<close>
  accepts: all checks and the simulation on the copy come first, and the check
  computed after the board has changed cannot raise.
\<close>

theorem failed_move_leaves_state_unchanged:
  assumes pm: "catalog_names_ok pm" and mv: "move pm st p1 p2 = (st', Some e)"
  shows "st' = st"
proof -
  let ?b = "fst st" and ?P1 = "py_upper p1" and ?P2 = "py_upper p2"
  from move_outcome [of pm st p1 p2] show ?thesis
  proof
    assume "\<exists>e. move pm st p1 p2 = (st, Some e)"
    with mv show ?thesis by auto
  next
    assume "\<exists>pc dest legal b1.
      getitem ?b (Some ?P1) = Inr (Some pc) \<and>
      getitem ?b (Some ?P2) = Inr dest \<and>
      player_turn ?b = color pc \<and>
      all_legal_piece_moves pm ?b (Some ?P1) = Inr legal \<and>
      Some ?P2 \<in> set legal \<and>
      do_move ?b (Some ?P1) (Some ?P2) = Inr b1 \<and>
      move pm st p1 p2 =
        (case is_in_check pm (fst (finish_move (b1, snd st) pc dest ?P2))
                (get_enemy (color pc)) of
           Inl e \<Rightarrow> (finish_move (b1, snd st) pc dest ?P2, Some e)
         | Inr chk \<Rightarrow>
             ((fst (finish_move (b1, snd st) pc dest ?P2)
                 \<lparr>in_check := (if chk then (get_enemy (color pc), True) else ([], False))\<rparr>,
               snd (finish_move (b1, snd st) pc dest ?P2)), None))"
    then obtain pc dest legal b1 where
      piece: "getitem ?b (Some ?P1) = Inr (Some pc)" and
      legal: "all_legal_piece_moves pm ?b (Some ?P1) = Inr legal" and
      mem: "Some ?P2 \<in> set legal" and
      dm: "do_move ?b (Some ?P1) (Some ?P2) = Inr b1" and
      res: "move pm st p1 p2 =
        (case is_in_check pm (fst (finish_move (b1, snd st) pc dest ?P2))
                (get_enemy (color pc)) of
           Inl e \<Rightarrow> (finish_move (b1, snd st) pc dest ?P2, Some e)
         | Inr chk \<Rightarrow>
             ((fst (finish_move (b1, snd st) pc dest ?P2)
                 \<lparr>in_check := (if chk then (get_enemy (color pc), True) else ([], False))\<rparr>,
               snd (finish_move (b1, snd st) pc dest ?P2)), None))"
      by blast
    from legal_move_simulated [OF legal mem] dm piece
    have "is_in_check pm b1 (color pc) = Inr False"
      by (simp add: is_in_check_after_move_def)
    then have "list_all (resolves b1) (map fst (squares b1))"
      by (rule is_in_check_resolves)
    moreover have sq: "squares (fst (finish_move (b1, snd st) pc dest ?P2)) = squares b1"
      by (rule squares_finish_move)
    ultimately have
      "list_all (resolves (fst (finish_move (b1, snd st) pc dest ?P2)))
         (map fst (squares (fst (finish_move (b1, snd st) pc dest ?P2))))"
      using resolves_squares [OF sq] by (simp add: list_all_iff)
    from is_in_check_total [OF valid_color_get_enemy this pm, of "color pc"]
    obtain chk where
      "is_in_check pm (fst (finish_move (b1, snd st) pc dest ?P2)) (get_enemy (color pc)) = Inr chk"
      by blast
    with res mv show ?thesis by simp
  qed
qed

section \<open>A missing king\<close>

text \<open>
  C9, amended. For every board with well-formed keys and no king of the colour asked
  for (white or black), and every catalog whose destinations are names that
  \<^verbatim>\<open>__getitem__\<close> accepts, no error is raised: \<^verbatim>\<open>get_king_position\<close> returns \<^verbatim>\<open>None\<close>,
  \<^verbatim>\<open>get_king\<close> returns \<^verbatim>\<open>None\<close>, and \<^verbatim>\<open>is_in_check\<close> returns a truth value, namely whether
  \<^verbatim>\<open>None\<close> is among the occupants of the enemy's destinations: true exactly when one of
  these destinations is an empty square, false otherwise.
\<close>

theorem missing_king_is_not_an_error:
  assumes "valid_color c" and "keys_ok b" and "no_king b c" and "catalog_names_ok pm"
  shows "get_king_position b c = Inr None \<and> get_king b c = Inr None \<and>
         (\<exists>ms. all_possible_moves pm b (get_enemy c) = Inr ms \<and>
               is_in_check pm b c = Inr (\<exists>m \<in> set ms. getitem b (Some m) = Inr None))"
proof -
  let ?occ = "\<lambda>m. case dict_get (squares b) (Some (py_upper m)) of
                     None \<Rightarrow> None
                   | Some p \<Rightarrow> Some (stored_key (Some m), p)"
  from assms have pos: "get_king_position b c = Inr None"
    by (simp add: get_king_position_def keys_ok_def get_king_position_loop_no_king)
  from assms have "dict_get (squares b) None = None"
    by (simp add: keys_ok_def dict_get_None_key)
  then have king: "get_king b c = Inr None"
    using assms(1) pos by (simp add: get_king_def getitem_ref_def getitem_None_total)
  from assms(2) have "list_all (resolves b) (map fst (squares b))"
    by (auto simp: keys_ok_def list_all_iff resolves_def getitem_key_ok)
  from all_possible_moves_loop_total [OF this, of pm "get_enemy c" "[]"]
  obtain ms where ms: "all_possible_moves pm b (get_enemy c) = Inr ms"
    by (auto simp: all_possible_moves_def valid_color_get_enemy)
  then have loop: "all_possible_moves_loop pm b (get_enemy c) (map fst (squares b)) [] = Inr ms"
    by (simp add: all_possible_moves_def valid_color_get_enemy)
  have names: "list_all (\<lambda>m. RANK_REGEX_match (py_upper m)) ms"
    by (rule all_possible_moves_loop_from_catalog [OF loop])
      (use assms(4) in \<open>simp_all add: catalog_names_ok_def\<close>)
  have occ: "emap (\<lambda>m. getitem_ref b (Some m)) ms = Inr (map ?occ ms)"
  proof (rule emap_Inr)
    fix m assume "m \<in> set ms"
    with names have "RANK_REGEX_match (py_upper m)" by (simp add: list_all_iff)
    then show "getitem_ref b (Some m) = Inr (?occ m)"
      by (simp add: getitem_ref_def getitem_Some split: option.splits)
  qed
  have empty: "\<And>m. m \<in> set ms \<Longrightarrow> (?occ m = None) = (getitem b (Some m) = Inr None)"
    using names by (simp add: list_all_iff getitem_Some split: option.splits)
  have "(None \<in> set (map ?occ ms)) = (\<exists>m \<in> set ms. ?occ m = None)"
    unfolding set_map image_iff by (rule bex_cong [OF refl]) (rule eq_commute)
  also have "\<dots> = (\<exists>m \<in> set ms. getitem b (Some m) = Inr None)"
    by (rule bex_cong [OF refl]) (rule empty)
  finally have "(None \<in> set (map ?occ ms)) = (\<exists>m \<in> set ms. getitem b (Some m) = Inr None)" .
  with king assms(1) ms occ have
    "is_in_check pm b c = Inr (\<exists>m \<in> set ms. getitem b (Some m) = Inr None)"
    by (simp add: is_in_check_def)
  with pos king ms show ?thesis by simp
qed

section \<open>Numerals, splitting and run lengths\<close>

lemma digit_char_table:
  "list_all (\<lambda>n. is_digit (digit_char n) \<and> digit_val (digit_char n) = n \<and>
                  \<not> py_isspace (digit_char n) \<and> digit_char n \<noteq> CHR ''-'' \<and>
                  digit_char n \<noteq> CHR ''+'') [0 ..< 10]"
  by code_simp

lemma digit_char_props:
  assumes "n < 10"
  shows "is_digit (digit_char n)" and "digit_val (digit_char n) = n"
    and "\<not> py_isspace (digit_char n)" and "digit_char n \<noteq> CHR ''-''" and "digit_char n \<noteq> CHR ''+''"
proof -
  from assms have "n \<in> set [0 ..< 10]" by simp
  with digit_char_table show "is_digit (digit_char n)" and "digit_val (digit_char n) = n"
    and "\<not> py_isspace (digit_char n)" and "digit_char n \<noteq> CHR ''-''" and "digit_char n \<noteq> CHR ''+''"
    unfolding list_all_iff by blast+
qed

lemma is_digit_not_space: "is_digit c \<Longrightarrow> \<not> py_isspace c \<and> c \<noteq> CHR ''-'' \<and> c \<noteq> CHR ''+'' \<and> c \<noteq> CHR '' '' \<and> c \<noteq> CHR ''/''"
  by (auto simp: is_digit_def digit_chars_def py_isspace_def)

lemma str_nat_digits: "list_all is_digit (str_nat n) \<and> str_nat n \<noteq> []"
proof (induction n rule: str_nat.induct)
  case (1 n)
  show ?case
  proof (cases "n < 10")
    case True
    then show ?thesis by (simp add: str_nat.simps [of n] digit_char_props)
  next
    case False
    with 1 show ?thesis by (simp add: str_nat.simps [of n] digit_char_props)
  qed
qed

lemma nat_of_digits_snoc: "nat_of_digits (ds @ [c]) = 10 * nat_of_digits ds + digit_val c"
  by (simp add: nat_of_digits_def)

lemma nat_of_digits_str_nat: "nat_of_digits (str_nat n) = n"
proof (induction n rule: str_nat.induct)
  case (1 n)
  show ?case
  proof (cases "n < 10")
    case True
    then show ?thesis by (simp add: str_nat.simps [of n] nat_of_digits_def digit_char_props)
  next
    case False
    with 1 show ?thesis
      by (simp add: str_nat.simps [of n] nat_of_digits_snoc digit_char_props)
  qed
qed

lemma py_strip_id:
  assumes "s \<noteq> []" and "\<not> py_isspace (hd s)" and "\<not> py_isspace (last s)"
  shows "py_strip s = s"
proof -
  from assms have "dropWhile py_isspace s = s" by (cases s) simp_all
  moreover from assms have "dropWhile py_isspace (rev s) = rev s"
    by (cases "rev s") (simp_all add: hd_rev)
  ultimately show ?thesis by (simp add: py_strip_def)
qed

lemma str_nat_ends:
  "is_digit (hd (str_nat n))" "is_digit (last (str_nat n))"
  using str_nat_digits [of n] by (cases "str_nat n"; auto simp: list_all_iff)+

lemma py_int_str_int: "py_int (str_int i) = Inr i"
proof (cases "i < 0")
  case True
  let ?ds = "str_nat (nat (- i))"
  have ne: "?ds \<noteq> []" and dg: "list_all is_digit ?ds" using str_nat_digits by auto
  have "last (CHR ''-'' # ?ds) = last ?ds" using ne by simp
  then have "py_strip (CHR ''-'' # ?ds) = CHR ''-'' # ?ds"
    using str_nat_ends(2) [of "nat (- i)"] is_digit_not_space
    by (intro py_strip_id) (auto simp: py_isspace_def)
  with True ne dg show ?thesis
    by (simp add: py_int_def str_int_def Let_def nat_of_digits_str_nat)
next
  case False
  let ?ds = "str_nat (nat i)"
  have ne: "?ds \<noteq> []" and dg: "list_all is_digit ?ds" using str_nat_digits by auto
  have st: "py_strip ?ds = ?ds"
    using str_nat_ends [of "nat i"] is_digit_not_space ne
    by (intro py_strip_id) auto
  have "hd ?ds \<noteq> CHR ''-''" "hd ?ds \<noteq> CHR ''+''"
    using str_nat_ends(1) [of "nat i"] is_digit_not_space by auto
  with False ne dg st show ?thesis
    by (simp add: py_int_def str_int_def Let_def nat_of_digits_str_nat)
qed

lemma str_int_no_blank: "CHR '' '' \<notin> set (str_int i)"
  using str_nat_digits [of "nat i"] str_nat_digits [of "nat (- i)"] is_digit_not_space
  by (auto simp: str_int_def list_all_iff)

lemma str_int_digit: "0 \<le> i \<Longrightarrow> list_all is_digit (str_int i)"
  using str_nat_digits by (simp add: str_int_def)

lemma str_int_small: "0 \<le> i \<Longrightarrow> i < 10 \<Longrightarrow> str_int i = [digit_char (nat i)]"
  by (simp add: str_int_def str_nat.simps)

lemma split_on_ne: "split_on c s \<noteq> []"
  by (induction s) (auto split: list.splits)

lemma split_on_none: "c \<notin> set s \<Longrightarrow> split_on c s = [s]"
  by (induction s) auto

lemma split_on_append: "c \<notin> set a \<Longrightarrow> split_on c (a @ c # rest) = a # split_on c rest"
  by (induction a) auto

lemma split_on_join:
  "ws \<noteq> [] \<Longrightarrow> list_all (\<lambda>w. c \<notin> set w) ws \<Longrightarrow> split_on c (join_with [c] ws) = ws"
proof (induction ws rule: induct_list012)
  case 1
  then show ?case by simp
next
  case (2 w)
  then show ?case by (simp add: split_on_none)
next
  case (3 w v ws)
  then show ?case by (simp add: split_on_append)
qed

lemma replace_spaces_Nil: "replace_spaces [] = []"
  by (simp add: replace_spaces_def)

lemma replace_spaces_Cons:
  "replace_spaces (c # cs) =
     (if c = CHR '' '' then str_int (1 + int (length (takeWhile (\<lambda>x. x = c) cs)))
      else c # takeWhile (\<lambda>x. x = c) cs) @ replace_spaces (dropWhile (\<lambda>x. x = c) cs)"
  by (simp add: replace_spaces_def)

lemma replace_spaces_letter:
  assumes "c \<noteq> CHR '' ''"
  shows "replace_spaces (c # cs) = c # replace_spaces cs"
proof (cases cs)
  case Nil
  with assms show ?thesis by (simp add: replace_spaces_Cons replace_spaces_Nil)
next
  case (Cons d ds)
  with assms show ?thesis
    by (cases "d = c") (simp_all add: replace_spaces_Cons)
qed

lemma takeWhile_blank_prefix:
  assumes "s = [] \<or> hd s \<noteq> c"
  shows "takeWhile (\<lambda>x. x = c) (replicate n c @ s) = replicate n c"
    and "dropWhile (\<lambda>x. x = c) (replicate n c @ s) = s"
  using assms by (induction n) (cases s; simp)+

lemma replace_spaces_blanks:
  assumes "s = [] \<or> hd s \<noteq> CHR '' ''"
  shows "replace_spaces (replicate (Suc n) (CHR '' '') @ s) = str_int (int (Suc n)) @ replace_spaces s"
  using takeWhile_blank_prefix [OF assms, of n]
  by (simp add: replace_spaces_Cons)

lemma takeWhile_is_replicate:
  "takeWhile (\<lambda>x. x = c) s = replicate (length (takeWhile (\<lambda>x. x = c) s)) c"
  by (induction s) auto

lemma blank_prefix:
  obtains n t where "s = replicate n (CHR '' '') @ t" and "t = [] \<or> hd t \<noteq> CHR '' ''"
proof
  show "s = replicate (length (takeWhile (\<lambda>x. x = CHR '' '') s)) (CHR '' '') @ dropWhile (\<lambda>x. x = CHR '' '') s"
    using takeWhile_is_replicate [of "CHR '' ''" s] takeWhile_dropWhile_id [of "\<lambda>x. x = CHR '' ''" s]
    by simp
  show "dropWhile (\<lambda>x. x = CHR '' '') s = [] \<or> hd (dropWhile (\<lambda>x. x = CHR '' '') s) \<noteq> CHR '' ''"
    using hd_dropWhile [of "\<lambda>x. x = CHR '' ''" s] by blast
qed

lemma replace_spaces_append_letter:
  assumes "c \<noteq> CHR '' ''"
  shows "replace_spaces (s @ c # t) = replace_spaces s @ c # replace_spaces t"
proof (induction "length s" arbitrary: s rule: less_induct)
  case less
  show ?case
  proof (cases s)
    case Nil
    with assms show ?thesis by (simp add: replace_spaces_letter replace_spaces_Nil)
  next
    case (Cons x xs)
    show ?thesis
    proof (cases "x = CHR '' ''")
      case False
      with Cons less [of xs] show ?thesis by (simp add: replace_spaces_letter)
    next
      case True
      obtain n u where xs: "xs = replicate n (CHR '' '') @ u" and u: "u = [] \<or> hd u \<noteq> CHR '' ''"
        by (rule blank_prefix)
      have s: "s = replicate (Suc n) (CHR '' '') @ u" using Cons True xs by simp
      have hd': "u @ c # t = [] \<or> hd (u @ c # t) \<noteq> CHR '' ''"
        using u assms by (cases u) auto
      have "replace_spaces (s @ c # t) = replace_spaces (replicate (Suc n) (CHR '' '') @ (u @ c # t))"
        by (simp add: s)
      also have "\<dots> = str_int (int (Suc n)) @ replace_spaces (u @ c # t)"
        by (rule replace_spaces_blanks [OF hd'])
      also have "replace_spaces (u @ c # t) = replace_spaces u @ c # replace_spaces t"
        by (rule less) (simp add: s)
      finally show ?thesis
        by (simp add: s replace_spaces_blanks [OF u] del: replicate_Suc)
    qed
  qed
qed

lemma expand_blanks_append: "expand_blanks (a @ b) = expand_blanks a @ expand_blanks b"
  by (simp add: expand_blanks_def)

lemma expand_blanks_Cons:
  "expand_blanks (c # s) =
     (if is_digit c then replicate (digit_val c) (CHR '' '') else [c]) @ expand_blanks s"
  by (simp add: expand_blanks_def)

lemma expand_blanks_Nil: "expand_blanks [] = []"
  by (simp add: expand_blanks_def)

lemma expand_replace_spaces:
  assumes "length s < 10"
  shows "list_all (\<lambda>x. \<not> is_digit x) s \<Longrightarrow> expand_blanks (replace_spaces s) = s"
  using assms
proof (induction "length s" arbitrary: s rule: less_induct)
  case less
  show ?case
  proof (cases s)
    case Nil
    then show ?thesis by (simp add: replace_spaces_Nil expand_blanks_Nil)
  next
    case (Cons x xs)
    show ?thesis
    proof (cases "x = CHR '' ''")
      case False
      with Cons less.prems less.hyps [of xs] show ?thesis
        by (simp add: replace_spaces_letter expand_blanks_Cons)
    next
      case True
      obtain n u where xs: "xs = replicate n (CHR '' '') @ u" and u: "u = [] \<or> hd u \<noteq> CHR '' ''"
        by (rule blank_prefix)
      have s: "s = replicate (Suc n) (CHR '' '') @ u" using Cons True xs by simp
      have n: "Suc n < 10" using less.prems(2) s by simp
      have "expand_blanks (replace_spaces u) = u"
        using less.prems by (intro less.hyps) (simp_all add: s)
      moreover have "nat (int (Suc n)) = Suc n" by (rule nat_int)
      then have "str_int (int (Suc n)) = [digit_char (Suc n)]"
        using n str_int_small [of "int (Suc n)"] by (simp del: of_nat_Suc)
      ultimately show ?thesis
        using n digit_char_props [of "Suc n"]
        by (simp add: s replace_spaces_blanks [OF u] expand_blanks_Cons del: replicate_Suc)
    qed
  qed
qed

lemma replace_spaces_no_blank: "CHR '' '' \<notin> set (replace_spaces s)"
proof (induction "length s" arbitrary: s rule: less_induct)
  case less
  show ?case
  proof (cases s)
    case Nil
    then show ?thesis by (simp add: replace_spaces_Nil)
  next
    case (Cons x xs)
    show ?thesis
    proof (cases "x = CHR '' ''")
      case False
      with Cons less [of xs] show ?thesis by (simp add: replace_spaces_letter)
    next
      case True
      obtain n u where xs: "xs = replicate n (CHR '' '') @ u" and u: "u = [] \<or> hd u \<noteq> CHR '' ''"
        by (rule blank_prefix)
      have s: "s = replicate (Suc n) (CHR '' '') @ u" using Cons True xs by simp
      have "CHR '' '' \<notin> set (replace_spaces u)" by (rule less) (simp add: s)
      then show ?thesis
        using str_int_no_blank [of "int (Suc n)"]
        by (simp add: s replace_spaces_blanks [OF u] del: replicate_Suc)
    qed
  qed
qed

lemma replace_spaces_join:
  "replace_spaces (join_with ''/'' rows) = join_with ''/'' (map replace_spaces rows)"
proof (induction rows rule: induct_list012)
  case 1
  then show ?case by (simp add: replace_spaces_Nil)
next
  case (2 w)
  then show ?case by simp
next
  case (3 w v ws)
  then show ?case by (simp add: replace_spaces_append_letter)
qed

lemma expand_blanks_join:
  "expand_blanks (join_with ''/'' ws) = join_with ''/'' (map expand_blanks ws)"
proof (induction ws rule: induct_list012)
  case 1
  then show ?case by (simp add: expand_blanks_Nil)
next
  case (2 w)
  then show ?case by simp
next
  case (3 w v ws)
  then show ?case
    by (simp add: expand_blanks_append expand_blanks_Cons is_digit_def digit_chars_def)
qed

lemma expand_replace_spaces_rows:
  assumes "list_all (\<lambda>row. length row < 10 \<and> list_all (\<lambda>x. \<not> is_digit x) row) rows"
  shows "expand_blanks (replace_spaces (join_with ''/'' rows)) = join_with ''/'' rows"
proof -
  have "map (\<lambda>row. expand_blanks (replace_spaces row)) rows = rows"
    using assms by (induction rows) (simp_all add: expand_replace_spaces)
  then show ?thesis
    by (simp add: replace_spaces_join expand_blanks_join o_def)
qed

lemma butlast_concat_rows:
  "rows \<noteq> [] \<Longrightarrow> butlast (concat (map (\<lambda>r. r @ ''/'') rows)) = join_with ''/'' rows"
proof (induction rows rule: induct_list012)
  case 1
  then show ?case by simp
next
  case (2 w)
  then show ?case by simp
next
  case (3 w v ws)
  then show ?case by (simp add: butlast_append)
qed

section \<open>Square names and coordinates\<close>

lemma square_name_cases:
  assumes "square_name s"
  obtains l d where "s = [l, d]" and "l \<in> set axis_y" and "d \<in> set ''12345678''"
  using assms by (cases s rule: square_name.cases) auto

lemma axis_y_upper_all: "list_all (\<lambda>l. upper_char l = l \<and> l \<in> set upper_letters) axis_y"
  by code_simp

lemma axis_y_upper: "l \<in> set axis_y \<Longrightarrow> upper_char l = l \<and> l \<in> set upper_letters"
  using axis_y_upper_all by (simp add: list_all_iff)

lemma rank_digit_upper_all: "list_all (\<lambda>d. upper_char d = d) ''12345678''"
  by code_simp

lemma rank_digit_upper: "d \<in> set ''12345678'' \<Longrightarrow> upper_char d = d"
  using rank_digit_upper_all unfolding list_all_iff by blast

lemma square_name_upper: "square_name s \<Longrightarrow> py_upper s = s \<and> RANK_REGEX_match s"
  by (erule square_name_cases) (simp add: py_upper_def axis_y_upper rank_digit_upper)

lemma catalog_squares_names: "catalog_squares_ok pm \<Longrightarrow> catalog_names_ok pm"
  unfolding catalog_squares_ok_def catalog_names_ok_def list_all_iff
  using square_name_upper by auto

lemma coords_names:
  "list_all (\<lambda>c. case letter_notation c of None \<Rightarrow> False | Some s \<Rightarrow> square_name s) all_coords"
  by code_simp

lemma in_concat_map2:
  "x \<in> set xs \<Longrightarrow> y \<in> set ys \<Longrightarrow> f x y \<in> set (concat (map (\<lambda>x. map (f x) ys) xs))"
  by auto

lemma in_bounds_coords: "is_in_bounds c \<Longrightarrow> c \<in> set all_coords"
proof -
  assume "is_in_bounds c"
  then have "0 \<le> fst c" "fst c \<le> 7" "0 \<le> snd c" "snd c \<le> 7"
    by (auto simp: is_in_bounds_def split: if_splits)
  then have "fst c = 0 \<or> fst c = 1 \<or> fst c = 2 \<or> fst c = 3 \<or> fst c = 4 \<or> fst c = 5 \<or> fst c = 6 \<or> fst c = 7"
    and "snd c = 0 \<or> snd c = 1 \<or> snd c = 2 \<or> snd c = 3 \<or> snd c = 4 \<or> snd c = 5 \<or> snd c = 6 \<or> snd c = 7"
    by arith+
  then have x: "7 - fst c \<in> set files" and y: "snd c \<in> set files"
    by (auto simp: files_def)
  have "(7 - (7 - fst c), snd c) \<in> set all_coords"
    unfolding all_coords_def using x y by (rule in_concat_map2)
  then show ?thesis by simp
qed

lemma letter_notation_square: "letter_notation c = Some s \<Longrightarrow> square_name s"
proof -
  assume a: "letter_notation c = Some s"
  then have "is_in_bounds c" by (auto simp: letter_notation_def split: if_splits)
  then have "c \<in> set all_coords" by (rule in_bounds_coords)
  with coords_names a show ?thesis by (auto simp: list_all_iff)
qed

lemma names_of_coords:
  "map letter_notation all_coords =
     map Some (concat (map (\<lambda>d. map (\<lambda>l. [l, d]) axis_y) ''87654321''))"
  by code_simp

lemma square_name_coord: "square_name s \<Longrightarrow> \<exists>c \<in> set all_coords. letter_notation c = Some s"
proof (erule square_name_cases)
  fix l d assume "s = [l, d]" "l \<in> set axis_y" "d \<in> set ''12345678''"
  then have "s \<in> set (concat (map (\<lambda>d. map (\<lambda>l. [l, d]) axis_y) ''87654321''))"
    by auto
  then have "Some s \<in> set (map letter_notation all_coords)"
    by (simp only: names_of_coords set_map image_eqI)
  then show ?thesis by force
qed

lemma getitem_letter_notation:
  "getitem b (letter_notation c) = Inr (dict_get (squares b) (letter_notation c))"
proof (cases "letter_notation c")
  case None
  then show ?thesis by (simp add: getitem.simps)
next
  case (Some s)
  with letter_notation_square have "square_name s" by blast
  with Some show ?thesis by (simp add: getitem_Some square_name_upper)
qed

lemma upper_char_piece_letter:
  "upper_char l \<in> set ''PNBRQK'' \<Longrightarrow> l \<in> set ''PNBRQKpnbrqk''"
proof (cases "map_of (zip lower_letters upper_letters) l")
  case None
  assume "upper_char l \<in> set ''PNBRQK''"
  with None show ?thesis by (auto simp: upper_char_def)
next
  case (Some u)
  assume a: "upper_char l \<in> set ''PNBRQK''"
  from Some have "(l, u) \<in> set (zip lower_letters upper_letters)" by (rule map_of_SomeD)
  moreover from a Some have "u \<in> set ''PNBRQK''" by (simp add: upper_char_def)
  ultimately show ?thesis
    by (auto simp: lower_letters_def upper_letters_def)
qed

lemma pieces_piece_letter:
  assumes "pieces_piece l = Inr p"
  shows "l \<in> set ''PNBRQKpnbrqk'' \<and> abbreviation_of p = [l]"
proof -
  from assms have ab: "abbreviation_of p = [l]"
    by (auto simp: pieces_piece_def split: option.splits)
  have "upper_char l \<in> set ''PNBRQK''"
  proof (cases "map_of [(CHR ''P'', Pawn), (CHR ''N'', Knight), (CHR ''B'', Bishop),
                   (CHR ''R'', Rook), (CHR ''Q'', Queen), (CHR ''K'', King)] (upper_char l)")
    case None
    with assms show ?thesis by (simp add: pieces_piece_def)
  next
    case (Some k)
    then have "(upper_char l, k) \<in> set [(CHR ''P'', Pawn), (CHR ''N'', Knight), (CHR ''B'', Bishop),
                   (CHR ''R'', Rook), (CHR ''Q'', Queen), (CHR ''K'', King)]"
      by (rule map_of_SomeD)
    then show ?thesis by auto
  qed
  then have "l \<in> set ''PNBRQKpnbrqk''" by (rule upper_char_piece_letter)
  with ab show ?thesis by simp
qed

lemma canonical_letter:
  assumes "canonical p"
  shows "abbreviation_of p = [hd (abbreviation_of p)]"
    and "hd (abbreviation_of p) \<in> set ''PNBRQKpnbrqk''"
  using pieces_piece_letter [OF assms [unfolded canonical_def]] by auto

lemma piece_letter_plain:
  "l \<in> set ''PNBRQKpnbrqk'' \<Longrightarrow> l \<noteq> CHR '' '' \<and> l \<noteq> CHR ''/'' \<and> \<not> is_digit l"
  by (auto simp: is_digit_def digit_chars_def)

section \<open>Export and load\<close>

lemma emap_map: "emap f (map g xs) = emap (\<lambda>x. f (g x)) xs"
  by (induction xs) (simp_all split: sum.splits)

lemma entry_ok_value:
  assumes "list_all entry_ok d" and "map_of d k = Some v"
  shows "\<exists>s p. k = Some s \<and> square_name s \<and> v = Some p \<and> canonical p"
proof -
  from assms(2) have "(k, v) \<in> set d" by (rule map_of_SomeD)
  with assms(1) have "entry_ok (k, v)" by (simp add: list_all_iff)
  then show ?thesis by (auto simp: entry_ok_def split: option.splits)
qed

lemma dict_get_canonical:
  "list_all entry_ok d \<Longrightarrow> dict_get d k = Some p \<Longrightarrow> canonical p \<and> map_of d k = Some (Some p)"
  by (cases "map_of d k") (auto simp: dict_get_def dest: entry_ok_value)

lemma dict_get_absent:
  "list_all entry_ok d \<Longrightarrow> dict_get d k = None \<Longrightarrow> map_of d k = None"
  by (cases "map_of d k") (auto simp: dict_get_def dest: entry_ok_value)

lemma cell_plain:
  assumes "list_all entry_ok d"
  shows "\<not> is_digit (cell d c) \<and> cell d c \<noteq> CHR ''/''"
proof (cases "dict_get d (letter_notation c)")
  case None
  then show ?thesis by (simp add: cell_def is_digit_def digit_chars_def)
next
  case (Some p)
  with assms have "canonical p" by (simp add: dict_get_canonical)
  then have "hd (abbreviation_of p) \<in> set ''PNBRQKpnbrqk''" by (rule canonical_letter)
  with Some piece_letter_plain show ?thesis by (simp add: cell_def)
qed

lemma export_keys:
  "list_all (\<lambda>number. map (\<lambda>letter. Some (letter # str_int number)) axis_y =
                      map (\<lambda>f. letter_notation (number - 1, f)) files) axis_x"
  by code_simp

lemma export_cell:
  assumes "list_all entry_ok (squares b)"
  shows "(case getitem b (letter_notation c) of
            Inl e \<Rightarrow> Inl e
          | Inr None \<Rightarrow> Inr '' ''
          | Inr (Some p) \<Rightarrow> Inr (abbreviation_of p)) = Inr [cell (squares b) c]"
proof (cases "dict_get (squares b) (letter_notation c)")
  case None
  then show ?thesis by (simp add: getitem_letter_notation cell_def)
next
  case (Some p)
  with assms have "canonical p" by (simp add: dict_get_canonical)
  then have "abbreviation_of p = [hd (abbreviation_of p)]" by (rule canonical_letter)
  with Some show ?thesis by (simp add: getitem_letter_notation cell_def)
qed

lemma export_rank_cells:
  assumes ok: "list_all entry_ok (squares b)" and n: "number \<in> set axis_x"
  shows "export_rank b number = Inr (map (\<lambda>f. cell (squares b) (number - 1, f)) files @ ''/'')"
proof -
  let ?F = "\<lambda>k. case getitem b k of
                   Inl e \<Rightarrow> Inl e
                 | Inr None \<Rightarrow> Inr '' ''
                 | Inr (Some p) \<Rightarrow> Inr (abbreviation_of p)"
  from export_keys n have keys:
    "map (\<lambda>letter. Some (letter # str_int number)) axis_y =
     map (\<lambda>f. letter_notation (number - 1, f)) files"
    by (simp add: list_all_iff)
  have "emap (\<lambda>letter. ?F (Some (letter # str_int number))) axis_y =
        emap ?F (map (\<lambda>letter. Some (letter # str_int number)) axis_y)"
    by (simp only: emap_map)
  also have "\<dots> = emap (\<lambda>f. ?F (letter_notation (number - 1, f))) files"
    by (simp only: keys emap_map)
  also have "\<dots> = Inr (map (\<lambda>f. [cell (squares b) (number - 1, f)]) files)"
    by (rule emap_Inr) (rule export_cell [OF ok])
  finally show ?thesis
    by (simp add: export_rank_def o_def)
qed

lemma rows_by_rank:
  "map (\<lambda>n. g (n - 1)) (rev axis_x) = map (\<lambda>x. g (7 - x)) files"
  by (simp add: axis_x_def files_def)

lemma export_wf:
  assumes "wf_board b"
  shows "export b =
     Inr (replace_spaces (join_with ''/'' (board_rows (squares b))) @ '' '' @
          [hd (player_turn b)] @ '' '' @ castling b @ '' '' @ en_passant b @ '' '' @
          str_int (halfmove_clock b) @ '' '' @ str_int (fullmove_number b))"
proof -
  from assms have ok: "list_all entry_ok (squares b)" by (simp add: wf_board_def)
  have "emap (export_rank b) (rev axis_x) =
        Inr (map (\<lambda>n. map (\<lambda>f. cell (squares b) (n - 1, f)) files @ ''/'') (rev axis_x))"
    by (rule emap_Inr) (simp add: export_rank_cells [OF ok])
  also have "map (\<lambda>n. map (\<lambda>f. cell (squares b) (n - 1, f)) files @ ''/'') (rev axis_x) =
             map (\<lambda>r. r @ ''/'') (board_rows (squares b))"
    using rows_by_rank [of "\<lambda>r. map (\<lambda>f. cell (squares b) (r, f)) files @ ''/''"]
    by (simp add: board_rows_def o_def)
  finally have ranks: "emap (export_rank b) (rev axis_x) =
      Inr (map (\<lambda>r. r @ ''/'') (board_rows (squares b)))" .
  have ne: "board_rows (squares b) \<noteq> []" by (simp add: board_rows_def files_def)
  from assms obtain t ts where pt: "player_turn b = t # ts"
    by (auto simp: wf_board_def valid_color_def)
  show ?thesis
    by (simp add: export_def ranks pt butlast_concat_rows [OF ne])
qed

lemma load_row_cells:
  assumes ok: "list_all entry_ok d"
  shows "consecutive y ys \<Longrightarrow>
         load_row b x y (map (\<lambda>y'. cell d (7 - x, y')) ys) =
           Inr (foldl (place d) b (map (\<lambda>y'. (7 - x, y')) ys))"
proof (induction ys arbitrary: b y)
  case Nil
  then show ?case by simp
next
  case (Cons z zs)
  then have z: "z = y" and rest: "consecutive (y + 1) zs" by simp_all
  show ?case
  proof (cases "dict_get d (letter_notation (7 - x, y))")
    case None
    then show ?thesis using Cons.IH [OF rest] z by (simp add: cell_def place_def)
  next
    case (Some p)
    with ok have c: "canonical p" by (simp add: dict_get_canonical)
    then have "hd (abbreviation_of p) \<in> set ''PNBRQKpnbrqk''" by (rule canonical_letter)
    then have "hd (abbreviation_of p) \<noteq> CHR '' ''" using piece_letter_plain by blast
    moreover from c have "pieces_piece (hd (abbreviation_of p)) = Inr p" by (simp add: canonical_def)
    ultimately show ?thesis
      using Some Cons.IH [OF rest] z by (simp add: cell_def place_def)
  qed
qed

lemma consecutive_files: "consecutive 0 files"
  by (simp add: files_def)

lemma load_rows_cells:
  assumes ok: "list_all entry_ok d"
  shows "consecutive x xs \<Longrightarrow>
         load_rows b x (map (\<lambda>x'. map (\<lambda>y'. cell d (7 - x', y')) files) xs) =
           Inr (foldl (place d) b (concat (map (\<lambda>x'. map (\<lambda>y'. (7 - x', y')) files) xs)))"
proof (induction xs arbitrary: b x)
  case Nil
  then show ?case by simp
next
  case (Cons z zs)
  then have z: "z = x" and rest: "consecutive (x + 1) zs" by simp_all
  show ?case
    using load_row_cells [OF ok consecutive_files, of b x] Cons.IH [OF rest] z
    by simp
qed

lemma load_rows_board:
  assumes "list_all entry_ok d"
  shows "load_rows b 0 (board_rows d) = Inr (foldl (place d) b all_coords)"
  using load_rows_cells [OF assms consecutive_files, of b]
  by (simp add: board_rows_def all_coords_def)

lemma place_lookup:
  "map_of (squares (place d b c)) k =
     (if letter_notation c = k \<and> dict_get d k \<noteq> None then Some (dict_get d k)
      else map_of (squares b) k)"
  by (cases "dict_get d (letter_notation c)") (auto simp: place_def update_conv')

lemma foldl_place_lookup:
  "map_of (squares (foldl (place d) b cs)) k =
     (if k \<in> letter_notation ` set cs \<and> dict_get d k \<noteq> None then Some (dict_get d k)
      else map_of (squares b) k)"
proof (induction cs arbitrary: b)
  case Nil
  then show ?case by simp
next
  case (Cons c cs)
  show ?case by (auto simp: Cons.IH place_lookup)
qed

lemma place_fields:
  "player_turn (place d b c) = player_turn b \<and> castling (place d b c) = castling b \<and>
   en_passant (place d b c) = en_passant b \<and> halfmove_clock (place d b c) = halfmove_clock b \<and>
   fullmove_number (place d b c) = fullmove_number b \<and> in_check (place d b c) = in_check b \<and>
   in_mate (place d b c) = in_mate b"
  by (cases "dict_get d (letter_notation c)") (simp_all add: place_def)

lemma foldl_place_fields:
  "in_check (foldl (place d) b cs) = in_check b \<and> in_mate (foldl (place d) b cs) = in_mate b"
  by (induction cs arbitrary: b) (simp_all add: place_fields)

lemma foldl_place_all:
  assumes ok: "list_all entry_ok d" and e: "squares b = []"
  shows "map_of (squares (foldl (place d) b all_coords)) = map_of d"
proof
  fix k
  show "map_of (squares (foldl (place d) b all_coords)) k = map_of d k"
  proof (cases "map_of d k")
    case None
    then have "dict_get d k = None" by (simp add: dict_get_def)
    with None e show ?thesis by (simp add: foldl_place_lookup)
  next
    case (Some v)
    with ok obtain s p where k: "k = Some s" and s: "square_name s" and v: "v = Some p"
      using entry_ok_value by blast
    from s obtain c where "c \<in> set all_coords" "letter_notation c = Some s"
      using square_name_coord by blast
    then have "k \<in> letter_notation ` set all_coords" using k by force
    moreover have "dict_get d k = Some p" using Some v by (simp add: dict_get_def)
    ultimately show ?thesis using Some v by (simp add: foldl_place_lookup)
  qed
qed

lemma split_fields:
  assumes "CHR '' '' \<notin> set P" and "t \<noteq> CHR '' ''" and "CHR '' '' \<notin> set cs"
    and "CHR '' '' \<notin> set ep"
  shows "split_on (CHR '' '')
           (P @ '' '' @ [t] @ '' '' @ cs @ '' '' @ ep @ '' '' @ str_int hm @ '' '' @ str_int fm) =
         [P, [t], cs, ep, str_int hm, str_int fm]"
proof -
  have 1: "split_on (CHR '' '') (str_int hm @ CHR '' '' # str_int fm) = [str_int hm, str_int fm]"
    by (simp add: split_on_append split_on_none str_int_no_blank)
  have 2: "split_on (CHR '' '') (ep @ CHR '' '' # str_int hm @ CHR '' '' # str_int fm) =
             [ep, str_int hm, str_int fm]"
    using assms(4) 1 by (simp add: split_on_append)
  have 3: "split_on (CHR '' '') (cs @ CHR '' '' # ep @ CHR '' '' # str_int hm @ CHR '' '' # str_int fm) =
             [cs, ep, str_int hm, str_int fm]"
    using assms(3) 2 by (simp add: split_on_append)
  have 4: "split_on (CHR '' '')
             ([t] @ CHR '' '' # cs @ CHR '' '' # ep @ CHR '' '' # str_int hm @ CHR '' '' # str_int fm) =
             [[t], cs, ep, str_int hm, str_int fm]"
    using assms(2) 3 by (subst split_on_append) simp_all
  show ?thesis
    using assms(1) 4 by (simp add: split_on_append)
qed

lemma load_fields:
  assumes "CHR '' '' \<notin> set P" and "t \<noteq> CHR '' ''" and "CHR '' '' \<notin> set cs"
    and "CHR '' '' \<notin> set ep"
    and "load_rows (b0\<lparr>squares := []\<rparr>) 0 (split_on (CHR ''/'') (expand_blanks P)) = Inr b1"
  shows "load b0 (P @ '' '' @ [t] @ '' '' @ cs @ '' '' @ ep @ '' '' @ str_int hm @ '' '' @ str_int fm) =
         Inr (b1\<lparr>player_turn := (if [t] = ''w'' then ''white'' else ''black''),
                 castling := cs, en_passant := ep, halfmove_clock := hm, fullmove_number := fm\<rparr>)"
  unfolding load_def split_fields [OF assms(1-4)] using assms(5)
  by (simp add: Let_def py_int_str_int)

lemma length_files: "length files = 8"
  by (simp add: files_def)

lemma board_rows_plain:
  assumes "list_all entry_ok d"
  shows "list_all (\<lambda>row. length row < 10 \<and> list_all (\<lambda>x. \<not> is_digit x) row) (board_rows d)"
    and "list_all (\<lambda>row. CHR ''/'' \<notin> set row) (board_rows d)"
    and "board_rows d \<noteq> []"
proof -
  have plain: "\<And>c. \<not> is_digit (cell d c) \<and> cell d c \<noteq> CHR ''/''"
    by (rule cell_plain [OF assms])
  show "list_all (\<lambda>row. length row < 10 \<and> list_all (\<lambda>x. \<not> is_digit x) row) (board_rows d)"
    unfolding board_rows_def list_all_iff using plain by (auto simp: length_files)
  show "list_all (\<lambda>row. CHR ''/'' \<notin> set row) (board_rows d)"
    unfolding board_rows_def list_all_iff
  proof (intro ballI)
    fix row assume "row \<in> set (map (\<lambda>x. map (\<lambda>y. cell d (7 - x, y)) files) files)"
    then obtain x where row: "row = map (\<lambda>y. cell d (7 - x, y)) files" by auto
    have "\<And>y. cell d (7 - x, y) \<noteq> CHR ''/''" using plain by blast
    then show "CHR ''/'' \<notin> set row" unfolding row by (simp add: image_iff) metis
  qed
  have "files \<noteq> []" using length_files by auto
  then show "board_rows d \<noteq> []" by (simp add: board_rows_def)
qed

lemma getitem_cong: "map_of (squares b') = map_of (squares b) \<Longrightarrow> getitem b' k = getitem b k"
  by (cases k) (simp_all add: getitem.simps dict_get_def Let_def)

lemma export_cong:
  assumes "map_of (squares b') = map_of (squares b)" and "player_turn b' = player_turn b"
    and "castling b' = castling b" and "en_passant b' = en_passant b"
    and "halfmove_clock b' = halfmove_clock b" and "fullmove_number b' = fullmove_number b"
  shows "export b' = export b"
proof -
  have "export_rank b' = export_rank b"
    by (rule ext) (simp add: export_rank_def getitem_cong [OF assms(1)])
  with assms show ?thesis by (simp add: export_def split: sum.splits list.splits)
qed

lemma round_trip_wf:
  assumes wf: "wf_board b"
  shows "\<exists>fen b'. export b = Inr fen \<and> load b0 fen = Inr b' \<and>
           map_of (squares b') = map_of (squares b) \<and> player_turn b' = player_turn b \<and>
           castling b' = castling b \<and> en_passant b' = en_passant b \<and>
           halfmove_clock b' = halfmove_clock b \<and> fullmove_number b' = fullmove_number b \<and>
           in_check b' = in_check b0 \<and> in_mate b' = in_mate b0"
proof -
  let ?d = "squares b"
  let ?P = "replace_spaces (join_with ''/'' (board_rows ?d))"
  let ?t = "hd (player_turn b)"
  let ?b1 = "foldl (place ?d) (b0\<lparr>squares := []\<rparr>) all_coords"
  let ?fen = "?P @ '' '' @ [?t] @ '' '' @ castling b @ '' '' @ en_passant b @ '' '' @
              str_int (halfmove_clock b) @ '' '' @ str_int (fullmove_number b)"
  from wf have ok: "list_all entry_ok ?d" and pt: "valid_color (player_turn b)"
    and cs: "CHR '' '' \<notin> set (castling b)" and ep: "CHR '' '' \<notin> set (en_passant b)"
    by (simp_all add: wf_board_def)
  have ex: "export b = Inr ?fen" by (rule export_wf [OF wf])
  have "expand_blanks ?P = join_with ''/'' (board_rows ?d)"
    by (rule expand_replace_spaces_rows) (rule board_rows_plain [OF ok])
  then have "split_on (CHR ''/'') (expand_blanks ?P) = board_rows ?d"
    using board_rows_plain(2,3) [OF ok] by (simp add: split_on_join)
  then have rows: "load_rows (b0\<lparr>squares := []\<rparr>) 0 (split_on (CHR ''/'') (expand_blanks ?P)) = Inr ?b1"
    by (simp add: load_rows_board [OF ok])
  have t: "?t \<noteq> CHR '' ''" using pt by (auto simp: valid_color_def)
  have turn: "(if [?t] = ''w'' then ''white'' else ''black'') = player_turn b"
    using pt by (auto simp: valid_color_def)
  have ld: "load b0 ?fen =
      Inr (?b1\<lparr>player_turn := player_turn b, castling := castling b, en_passant := en_passant b,
                halfmove_clock := halfmove_clock b, fullmove_number := fullmove_number b\<rparr>)"
    using load_fields [OF replace_spaces_no_blank t cs ep rows] turn by simp
  have "map_of (squares ?b1) = map_of ?d"
    by (rule foldl_place_all [OF ok]) simp
  with ex ld foldl_place_fields [of ?d "b0\<lparr>squares := []\<rparr>" all_coords] show ?thesis
    by simp
qed

section \<open>Moves keep the board well formed\<close>

lemma legal_move_in_catalog:
  assumes "all_legal_piece_moves pm b origin = Inr legal" and "Some d \<in> set legal"
  shows "\<exists>p. getitem b origin = Inr (Some p) \<and> d \<in> set (pm p origin b)"
proof -
  from assms(1) obtain p where p: "getitem b origin = Inr (Some p)"
    and e: "emap (add_move pm b origin) (pm p origin b) = Inr legal"
    by (auto simp: all_legal_piece_moves_def split: sum.splits option.splits)
  from emap_Inr_elem [OF e assms(2)] obtain m where
    m: "m \<in> set (pm p origin b)" and "add_move pm b origin m = Inr (Some d)" by blast
  then have "m = d" by (auto simp: add_move_def split: sum.splits if_splits)
  with p m show ?thesis by blast
qed

text \<open>The coordinates in the list returned by \<^verbatim>\<open>all_legal_piece_moves\<close> are exactly the
  candidates of the catalog whose simulation reports no check; the remaining entries of
  the list are \<^verbatim>\<open>None\<close>.\<close>

lemma emap_Inr_image: "emap f xs = Inr ys \<Longrightarrow> x \<in> set xs \<Longrightarrow> \<exists>y \<in> set ys. f x = Inr y"
  by (induction xs arbitrary: ys) (auto split: sum.splits)

lemma legal_piece_moves_coordinates:
  assumes g: "getitem b origin = Inr (Some p)"
    and l: "all_legal_piece_moves pm b origin = Inr legal"
  shows "Some d \<in> set legal \<longleftrightarrow>
           d \<in> set (pm p origin b) \<and> is_in_check_after_move pm b origin (Some d) = Inr False"
proof
  assume m: "Some d \<in> set legal"
  from legal_move_in_catalog [OF l m] g have "d \<in> set (pm p origin b)" by simp
  with legal_move_simulated [OF l m]
  show "d \<in> set (pm p origin b) \<and> is_in_check_after_move pm b origin (Some d) = Inr False"
    by simp
next
  assume r: "d \<in> set (pm p origin b) \<and> is_in_check_after_move pm b origin (Some d) = Inr False"
  from g l have e: "emap (add_move pm b origin) (pm p origin b) = Inr legal"
    by (simp add: all_legal_piece_moves_def)
  from r have "add_move pm b origin d = Inr (Some d)" by (simp add: add_move_def)
  with emap_Inr_image [OF e, of d] r show "Some d \<in> set legal" by auto
qed

lemma set_update_subset: "set (AList.update k v al) \<subseteq> insert (k, v) (set al)"
  by (induction al) auto

lemma set_delete_subset: "set (AList.delete k al) \<subseteq> set al"
  by (auto simp: AList.delete_eq)

lemma move_success:
  assumes "move pm (b, h) p1 p2 = ((b', h'), None)"
  obtains pc dest legal b1 chk where
    "getitem b (Some (py_upper p1)) = Inr (Some pc)"
    "getitem b (Some (py_upper p2)) = Inr dest"
    "player_turn b = color pc"
    "all_legal_piece_moves pm b (Some (py_upper p1)) = Inr legal"
    "Some (py_upper p2) \<in> set legal"
    "do_move b (Some (py_upper p1)) (Some (py_upper p2)) = Inr b1"
    "is_in_check pm (fst (finish_move (b1, h) pc dest (py_upper p2))) (get_enemy (color pc)) = Inr chk"
    "b' = fst (finish_move (b1, h) pc dest (py_upper p2))
            \<lparr>in_check := (if chk then (get_enemy (color pc), True) else ([], False))\<rparr>"
    "h' = snd (finish_move (b1, h) pc dest (py_upper p2))"
proof -
  have "\<not> (\<exists>e. move pm (b, h) p1 p2 = ((b, h), Some e))" using assms by simp
  with move_outcome [of pm "(b, h)" p1 p2, unfolded fst_conv snd_conv]
  obtain pc dest legal b1 where f:
    "getitem b (Some (py_upper p1)) = Inr (Some pc)"
    "getitem b (Some (py_upper p2)) = Inr dest"
    "player_turn b = color pc"
    "all_legal_piece_moves pm b (Some (py_upper p1)) = Inr legal"
    "Some (py_upper p2) \<in> set legal"
    "do_move b (Some (py_upper p1)) (Some (py_upper p2)) = Inr b1"
    and r: "move pm (b, h) p1 p2 =
        (case is_in_check pm (fst (finish_move (b1, h) pc dest (py_upper p2)))
                (get_enemy (color pc)) of
           Inl e \<Rightarrow> (finish_move (b1, h) pc dest (py_upper p2), Some e)
         | Inr chk \<Rightarrow>
             ((fst (finish_move (b1, h) pc dest (py_upper p2))
                 \<lparr>in_check := (if chk then (get_enemy (color pc), True) else ([], False))\<rparr>,
               snd (finish_move (b1, h) pc dest (py_upper p2))), None))"
    by blast
  from r assms obtain chk where
    "is_in_check pm (fst (finish_move (b1, h) pc dest (py_upper p2))) (get_enemy (color pc)) = Inr chk"
    "b' = fst (finish_move (b1, h) pc dest (py_upper p2))
            \<lparr>in_check := (if chk then (get_enemy (color pc), True) else ([], False))\<rparr>"
    "h' = snd (finish_move (b1, h) pc dest (py_upper p2))"
    by (cases "is_in_check pm (fst (finish_move (b1, h) pc dest (py_upper p2))) (get_enemy (color pc))")
      auto
  with f that show ?thesis by blast
qed

lemma finish_move_fields:
  "castling (fst (finish_move (b, h) pc dest p2)) = castling b \<and>
   en_passant (fst (finish_move (b, h) pc dest p2)) = en_passant b \<and>
   player_turn (fst (finish_move (b, h) pc dest p2)) = get_enemy (color pc) \<and>
   (\<exists>t. snd (finish_move (b, h) pc dest p2) = h @ [t])"
  by (simp add: finish_move_def Let_def)

lemma move_keeps_wf:
  assumes pm: "catalog_squares_ok pm" and wf: "wf_board b"
    and mv: "move pm (b, h) p1 p2 = ((b', h'), None)"
  shows "wf_board b'"
proof -
  from mv obtain pc dest legal b1 chk where
    g: "getitem b (Some (py_upper p1)) = Inr (Some pc)" and
    l: "all_legal_piece_moves pm b (Some (py_upper p1)) = Inr legal" and
    m: "Some (py_upper p2) \<in> set legal" and
    d: "do_move b (Some (py_upper p1)) (Some (py_upper p2)) = Inr b1" and
    b': "b' = fst (finish_move (b1, h) pc dest (py_upper p2))
            \<lparr>in_check := (if chk then (get_enemy (color pc), True) else ([], False))\<rparr>"
    by (rule move_success)
  from wf have ok: "list_all entry_ok (squares b)" by (simp add: wf_board_def)
  from legal_move_in_catalog [OF l m] g have "py_upper p2 \<in> set (pm pc (Some (py_upper p1)) b)"
    by simp
  with pm have sq: "square_name (py_upper p2)"
    by (auto simp: catalog_squares_ok_def list_all_iff)
  from g have "dict_get (squares b) (Some (py_upper p1)) = Some pc"
    by (simp add: getitem_Some py_upper_idem split: if_splits)
  with ok have can: "canonical pc" by (simp add: dict_get_canonical)
  from d g have b1: "b1 = b\<lparr>squares := AList.update (Some (py_upper p2)) (Some pc)
                                  (AList.delete (Some (py_upper p1)) (squares b))\<rparr>"
    by (simp add: do_move_def split: if_splits)
  have "set (squares b1) \<subseteq> insert (Some (py_upper p2), Some pc) (set (squares b))"
    using set_update_subset set_delete_subset unfolding b1 by fastforce
  with ok sq can have "list_all entry_ok (squares b1)"
    by (auto simp: list_all_iff entry_ok_def)
  moreover have "squares b' = squares b1"
    unfolding b' by (simp add: squares_finish_move)
  moreover have "castling b' = castling b" "en_passant b' = en_passant b"
    "player_turn b' = get_enemy (color pc)"
    unfolding b' by (simp_all add: finish_move_fields b1)
  ultimately show ?thesis using wf
    by (simp add: wf_board_def valid_color_get_enemy)
qed

lemma start_wf_eval: "case Board_init None of Inl e \<Rightarrow> False | Inr b \<Rightarrow> wf_board b"
  by code_simp

lemma reachable_wf:
  assumes "catalog_squares_ok pm"
  shows "reachable pm b \<Longrightarrow> wf_board b"
proof (induction rule: reachable.induct)
  case (start b)
  with start_wf_eval show ?case by simp
next
  case (step b h p1 p2 b' h')
  then show ?case using move_keeps_wf [OF assms] by blast
qed

text \<open>
  C7. For the starting position and every board reachable from it by successful moves
  (with a catalog whose destinations are squares of the board), \<^verbatim>\<open>export\<close> returns a
  string from which \<^verbatim>\<open>Board(...)\<close> builds a board with the same occupant at every
  coordinate and the same active colour, castling string, en-passant field, halfmove
  clock and fullmove number; exporting that board gives the same string again, so the
  piece placement field agrees too.
\<close>

theorem load_export_round_trip:
  assumes "catalog_squares_ok pm" and "reachable pm b"
  shows "\<exists>fen b'. export b = Inr fen \<and> Board_init (Some fen) = Inr b' \<and>
           (\<forall>k. getitem b' k = getitem b k) \<and>
           map_of (squares b') = map_of (squares b) \<and> player_turn b' = player_turn b \<and>
           castling b' = castling b \<and> en_passant b' = en_passant b \<and>
           halfmove_clock b' = halfmove_clock b \<and> fullmove_number b' = fullmove_number b \<and>
           export b' = Inr fen"
proof -
  from assms have "wf_board b" by (simp add: reachable_wf)
  from round_trip_wf [OF this, of new_instance] obtain fen b' where
    r: "export b = Inr fen" "load new_instance fen = Inr b'"
    "map_of (squares b') = map_of (squares b)" "player_turn b' = player_turn b"
    "castling b' = castling b" "en_passant b' = en_passant b"
    "halfmove_clock b' = halfmove_clock b" "fullmove_number b' = fullmove_number b"
    by blast
  then have "export b' = Inr fen" using export_cong [of b' b] by simp
  moreover have "\<forall>k. getitem b' k = getitem b k" using getitem_cong [OF r(3)] by simp
  ultimately show ?thesis using r by (auto simp: Board_init_def)
qed

section \<open>The example catalog names squares\<close>

lemma std_ray_ok: "list_all square_name (std_ray b c pos d n)"
proof (induction n arbitrary: pos)
  case 0
  then show ?case by simp
next
  case (Suc n)
  show ?case
  proof (cases "letter_notation (fst pos + fst d, snd pos + snd d)")
    case None
    then show ?thesis by simp
  next
    case (Some s)
    then have "square_name s" by (rule letter_notation_square)
    with Some Suc show ?thesis by (simp split: option.splits)
  qed
qed

lemma std_free_ok: "list_all square_name (std_free b pos)"
  by (auto simp: std_free_def split: option.splits dest: letter_notation_square)

lemma std_capture_ok: "list_all square_name (std_capture b c pos)"
  by (auto simp: std_capture_def split: option.splits dest: letter_notation_square)

lemma std_pawn_ok: "list_all square_name (std_pawn b c pos)"
  by (simp add: std_pawn_def Let_def std_free_ok std_capture_ok)

lemma std_rays_ok: "list_all square_name (concat (map (\<lambda>d. std_ray b c pos d n) ds))"
  by (induction ds) (simp_all add: std_ray_ok)

lemma std_moves_squares: "catalog_squares_ok std_moves"
  unfolding catalog_squares_ok_def
proof (intro allI)
  fix p k b
  show "list_all square_name (std_moves p k b)"
  proof (cases "std_square k")
    case None
    then show ?thesis by (simp add: std_moves_def)
  next
    case (Some pos)
    then show ?thesis
      by (cases "kind p") (simp_all add: std_moves_def std_rays_ok std_pawn_ok del: std_ray.simps)
  qed
qed

lemma std_moves_names: "catalog_names_ok std_moves"
  using std_moves_squares by (rule catalog_squares_names)

section \<open>Instances\<close>

text \<open>The example catalog meets the condition of C4; on \<open>pos_rook\<close> a move of the black
  king fails with \<open>NotYourTurn\<close> and an illegal move of the white king with \<open>InvalidMove\<close>,
  and both leave the state as it was.\<close>

theorem failed_move_leaves_state_unchanged_witness:
  "catalog_names_ok std_moves \<and>
   move std_moves (pos_rook, []) ''H8'' ''G8'' = ((pos_rook, []), Some NotYourTurn) \<and>
   move std_moves (pos_rook, []) ''A1'' ''H8'' = ((pos_rook, []), Some InvalidMove)"
proof -
  have e1: "snd (move std_moves (pos_rook, []) ''H8'' ''G8'') = Some NotYourTurn" by code_simp
  have e2: "snd (move std_moves (pos_rook, []) ''A1'' ''H8'') = Some InvalidMove" by code_simp
  have m1: "move std_moves (pos_rook, []) ''H8'' ''G8'' =
              (fst (move std_moves (pos_rook, []) ''H8'' ''G8''), Some NotYourTurn)"
    using e1 by (simp add: prod_eq_iff)
  have m2: "move std_moves (pos_rook, []) ''A1'' ''H8'' =
              (fst (move std_moves (pos_rook, []) ''A1'' ''H8''), Some InvalidMove)"
    using e2 by (simp add: prod_eq_iff)
  from failed_move_leaves_state_unchanged [OF std_moves_names m1]
       failed_move_leaves_state_unchanged [OF std_moves_names m2] m1 m2 std_moves_names
  show ?thesis by simp
qed

text \<open>
  C9 says that asking for the king of a colour that has none fails with an
  internal-invariant error and aborts \<^verbatim>\<open>is_in_check\<close>. On \<open>pos_lone_king\<close> there is no
  black king: \<^verbatim>\<open>get_king_position('black')\<close> returns \<^verbatim>\<open>None\<close>, \<^verbatim>\<open>get_king('black')\<close>
  returns \<^verbatim>\<open>None\<close> and \<^verbatim>\<open>is_in_check('black')\<close> returns \<^verbatim>\<open>True\<close>.
\<close>

theorem missing_king_counterexample:
  "Board_init (Some ''8/8/8/8/8/8/8/K7 w - - 0 1'') = Inr pos_lone_king \<and>
   get_king_position pos_lone_king ''black'' = Inr None \<and>
   get_king pos_lone_king ''black'' = Inr None \<and>
   is_in_check std_moves pos_lone_king ''black'' = Inr True"
  by code_simp

text \<open>The amended statement at \<open>pos_lone_king\<close> and the colour black: the three
  destinations of the white king are empty squares.\<close>

theorem missing_king_is_not_an_error_witness:
  "valid_color ''black'' \<and> keys_ok pos_lone_king \<and> no_king pos_lone_king ''black'' \<and>
   catalog_names_ok std_moves \<and>
   get_king_position pos_lone_king ''black'' = Inr None \<and>
   get_king pos_lone_king ''black'' = Inr None \<and>
   all_possible_moves std_moves pos_lone_king (get_enemy ''black'') = Inr [''A2'', ''B1'', ''B2''] \<and>
   getitem pos_lone_king (Some ''A2'') = Inr None \<and>
   is_in_check std_moves pos_lone_king ''black'' = Inr True"
proof -
  have h: "valid_color ''black''" "keys_ok pos_lone_king" "no_king pos_lone_king ''black''"
    by code_simp+
  have m: "all_possible_moves std_moves pos_lone_king (get_enemy ''black'') = Inr [''A2'', ''B1'', ''B2'']"
    by code_simp
  have e: "getitem pos_lone_king (Some ''A2'') = Inr None" by code_simp
  from missing_king_is_not_an_error [OF h std_moves_names] m e
  have "is_in_check std_moves pos_lone_king ''black'' = Inr True" by auto
  with missing_king_is_not_an_error [OF h std_moves_names] h std_moves_names m e
  show ?thesis by simp
qed

section \<open>The history of the class\<close>

lemma move_appends_record:
  assumes "move pm (b, h) p1 p2 = (st', None)"
  shows "\<exists>t. snd st' = h @ [t]"
proof -
  obtain b' h' where st': "st' = (b', h')" by (cases st')
  from assms [unfolded st'] obtain pc dest b1 where
    "h' = snd (finish_move (b1, h) pc dest (py_upper p2))"
    by (rule move_success)
  with finish_move_fields [of b1 h pc dest "py_upper p2"] st' show ?thesis by auto
qed

text \<open>
  C8 says that every board owns its history: a new board has an empty history, and a
  move on one board leaves the history of the others alone. Two boards are made from
  \<open>mate_fen\<close>; the rook move on the first changes the history read through the second
  from \<^verbatim>\<open>[]\<close> to \<^verbatim>\<open>['Rh8']\<close>, and a third board made afterwards starts with the history
  \<^verbatim>\<open>['Rh8']\<close>.
\<close>

theorem history_shared_counterexample:
  "construct one_board (Some mate_fen) = Inr two_boards \<and>
   history two_boards 1 = [] \<and>
   move_on std_moves two_boards 0 ''H1'' ''H8'' = (two_boards_moved, None) \<and>
   history two_boards_moved 1 = [''Rh8''] \<and>
   construct two_boards_moved (Some mate_fen) = Inr three_boards \<and>
   history three_boards 2 = [''Rh8'']"
  by code_simp

text \<open>
  C8, amended. The history is one list of the class, shared by all boards of the
  process: a new board reads the history as it stands (empty only when no board has
  moved yet), and a successful move on one board appends its record to the history read
  through every board. The dictionary and the metadata are owned per board: a move on
  board \<open>i\<close> leaves every other board as it was.
\<close>

theorem history_is_shared:
  "(construct pr fen = Inr pr1 \<longrightarrow>
      history pr1 (length (boards pr)) = history pr i \<and> length (boards pr1) = Suc (length (boards pr))) \<and>
   (move_on pm pr i p1 p2 = (pr2, None) \<longrightarrow>
      (\<exists>t. \<forall>j. history pr2 j = history pr j @ [t]) \<and>
      (\<forall>j. j \<noteq> i \<longrightarrow> boards pr2 ! j = boards pr ! j))"
proof (intro conjI impI)
  assume c: "construct pr fen = Inr pr1"
  then show "history pr1 (length (boards pr)) = history pr i"
    by (auto simp: construct_def history_def split: sum.splits)
  from c show "length (boards pr1) = Suc (length (boards pr))"
    by (auto simp: construct_def split: sum.splits)
next
  assume m: "move_on pm pr i p1 p2 = (pr2, None)"
  let ?r = "move pm (boards pr ! i, class_history pr) p1 p2"
  from m have r: "?r = (fst ?r, None)" and pr2:
    "pr2 = pr\<lparr>boards := (boards pr)[i := fst (fst ?r)], class_history := snd (fst ?r)\<rparr>"
    by (auto simp: move_on_def Let_def prod_eq_iff)
  from move_appends_record [OF r] obtain t where "snd (fst ?r) = class_history pr @ [t]" ..
  then show "\<exists>t. \<forall>j. history pr2 j = history pr j @ [t]"
    by (simp add: pr2 history_def)
  show "\<forall>j. j \<noteq> i \<longrightarrow> boards pr2 ! j = boards pr ! j"
    by (simp add: pr2)
qed

text \<open>The amended statement at the two boards made from \<open>mate_fen\<close>.\<close>

theorem history_is_shared_witness:
  "construct one_board (Some mate_fen) = Inr two_boards \<and>
   history two_boards (length (boards one_board)) = history one_board 0 \<and>
   move_on std_moves two_boards 0 ''H1'' ''H8'' = (two_boards_moved, None) \<and>
   (\<exists>t. \<forall>j. history two_boards_moved j = history two_boards j @ [t]) \<and>
   boards two_boards_moved ! 1 = boards two_boards ! 1"
proof -
  have c: "construct one_board (Some mate_fen) = Inr two_boards" by code_simp
  have m: "move_on std_moves two_boards 0 ''H1'' ''H8'' = (two_boards_moved, None)" by code_simp
  from history_is_shared [of one_board "Some mate_fen" two_boards 0 std_moves "''H1''" "''H8''" pr2] c
  have 1: "history two_boards (length (boards one_board)) = history one_board 0" by simp
  from history_is_shared [of two_boards fen pr1 0 std_moves "''H1''" "''H8''" two_boards_moved] m
  have 2: "(\<exists>t. \<forall>j. history two_boards_moved j = history two_boards j @ [t]) \<and>
           (\<forall>j. j \<noteq> 0 \<longrightarrow> boards two_boards_moved ! j = boards two_boards ! j)" by simp
  then have "boards two_boards_moved ! 1 = boards two_boards ! 1" by simp
  with c m 1 2 show ?thesis by simp
qed

section \<open>The round trip on the first two positions\<close>

lemma start_board_init: "Board_init None = Inr start_board"
  by code_simp

lemma first_move: "move std_moves (start_board, []) ''E2'' ''E4'' = ((after_e4, [''e4'']), None)"
  by code_simp

lemma export_after_e4:
  "export after_e4 = Inr ''rnbqkbnr/pppppppp/8/8/4P3/8/PPPP1PPP/RNBQKBNR b KQkq - 0 1''"
  by code_simp

text \<open>The round trip at the starting position and at the position after 1. e4, with the
  example catalog.\<close>

theorem load_export_round_trip_witness:
  "catalog_squares_ok std_moves \<and> reachable std_moves start_board \<and>
   reachable std_moves after_e4 \<and>
   export start_board = Inr FEN_STARTING \<and>
   (\<exists>b'. Board_init (Some FEN_STARTING) = Inr b' \<and>
         map_of (squares b') = map_of (squares start_board) \<and>
         player_turn b' = ''white'' \<and> fullmove_number b' = 1) \<and>
   export after_e4 = Inr ''rnbqkbnr/pppppppp/8/8/4P3/8/PPPP1PPP/RNBQKBNR b KQkq - 0 1'' \<and>
   (\<exists>b'. Board_init (Some ''rnbqkbnr/pppppppp/8/8/4P3/8/PPPP1PPP/RNBQKBNR b KQkq - 0 1'') = Inr b' \<and>
         map_of (squares b') = map_of (squares after_e4) \<and>
         player_turn b' = ''black'' \<and> halfmove_clock b' = 0)"
proof -
  have r0: "reachable std_moves start_board"
    by (rule reachable.start) (rule start_board_init)
  have r1: "reachable std_moves after_e4"
    by (rule reachable.step [OF r0 first_move])
  have e0: "export start_board = Inr FEN_STARTING" by code_simp
  have f0: "player_turn start_board = ''white''" "fullmove_number start_board = 1"
    by (simp_all add: start_board_def)
  have f1: "player_turn after_e4 = ''black''" "halfmove_clock after_e4 = 0"
    by (simp_all add: after_e4_def)
  from load_export_round_trip [OF std_moves_squares r0] e0 f0
  have 0: "\<exists>b'. Board_init (Some FEN_STARTING) = Inr b' \<and>
         map_of (squares b') = map_of (squares start_board) \<and>
         player_turn b' = ''white'' \<and> fullmove_number b' = 1"
    by auto
  from load_export_round_trip [OF std_moves_squares r1] export_after_e4 f1
  have 1: "\<exists>b'. Board_init (Some ''rnbqkbnr/pppppppp/8/8/4P3/8/PPPP1PPP/RNBQKBNR b KQkq - 0 1'') = Inr b' \<and>
         map_of (squares b') = map_of (squares after_e4) \<and>
         player_turn b' = ''black'' \<and> halfmove_clock b' = 0"
    by auto
  from std_moves_squares r0 r1 e0 0 export_after_e4 1 show ?thesis by blast
qed

end
